theory Spec2Isabelle
  imports Complex_Main "HOL-Library.Char_ord" "HOL-Library.List_Lexorder" "HOL-Library.Multiset"
begin

unbundle bit_operations_syntax

section \<open>JavaScript values used by the service\<close>

text \<open>
  Strings are modelled as \<^typ>\<open>string\<close>: lists of 8-bit characters, ordered
  lexicographically by character code. For the ASCII data the service handles
  (hex signatures, phone numbers, timestamps) this is both the UTF-16 code unit view of
  JavaScript (\<open>charCodeAt\<close>, \<open>length\<close>) and the byte view of SQLite's BINARY
  collation.
\<close>

text \<open>A value caught by \<open>catch (err)\<close>: an \<open>Error\<close> object with its message, or
  anything else.\<close>

datatype js_error = Error string | NonError

text \<open>A JavaScript number: NaN, the infinities, or a finite double, which is held by its
  exact rational value (comparisons of doubles are comparisons of these values).\<close>

datatype js_number = NaN | Finite rat | PosInf | NegInf

fun js_less :: "js_number \<Rightarrow> js_number \<Rightarrow> bool" where
  "js_less NaN _ = False"
| "js_less _ NaN = False"
| "js_less (Finite a) (Finite b) = (a < b)"
| "js_less (Finite a) PosInf = True"
| "js_less (Finite a) NegInf = False"
| "js_less PosInf _ = False"
| "js_less NegInf NegInf = False"
| "js_less NegInf _ = True"

text \<open>Truthiness of a \<open>string | null | undefined\<close> value: \<open>null\<close>, \<open>undefined\<close> and
  the empty string are falsy.\<close>

definition truthy :: "string option \<Rightarrow> bool" where
  "truthy s = (case s of None \<Rightarrow> False | Some v \<Rightarrow> v \<noteq> [])"

text \<open>\<open>hay.includes(needle)\<close>.\<close>

definition starts_with :: "string \<Rightarrow> string \<Rightarrow> bool" where
  "starts_with hay needle = (take (length needle) hay = needle)"

fun str_includes :: "string \<Rightarrow> string \<Rightarrow> bool" where
  "str_includes [] needle = (needle = [])"
| "str_includes (c # cs) needle = (starts_with (c # cs) needle \<or> str_includes cs needle)"

text \<open>\<open>s.split(d)\<close> for a one-character separator.\<close>

fun split_on :: "char \<Rightarrow> string \<Rightarrow> string list" where
  "split_on d [] = [Nil]"
| "split_on d (c # cs) =
     (if c = d then [] # split_on d cs
      else (case split_on d cs of [] \<Rightarrow> [c # Nil] | w # ws \<Rightarrow> (c # w) # ws))"

text \<open>\<open>lines.join(sep)\<close>.\<close>

fun join :: "string \<Rightarrow> string list \<Rightarrow> string" where
  "join sep [] = []"
| "join sep [l] = l"
| "join sep (l # m # ls) = l @ sep @ join sep (m # ls)"

text \<open>The decimal text of a non-negative integer, as a template literal prints it.\<close>

definition digit_char :: "nat \<Rightarrow> char" where
  "digit_char n = ''0123456789'' ! (n mod 10)"

fun show_nat :: "nat \<Rightarrow> string" where
  "show_nat n = (if n < 10 then [digit_char n] else show_nat (n div 10) @ [digit_char n])"

declare show_nat.simps [simp del]

text \<open>The character class \<open>\d\<close> of a JavaScript regular expression without the unicode
  flag.\<close>

definition is_digit :: "char \<Rightarrow> bool" where
  "is_digit c = (c \<in> set ''0123456789'')"

text \<open>
  A stable sort by a comparison: each element is put before the first element it may
  precede. It stands for \<open>ORDER BY\<close> in the SQL statements and for
  \<open>Array.prototype.sort\<close> with a comparator.
\<close>

fun insert_by :: "('a \<Rightarrow> 'a \<Rightarrow> bool) \<Rightarrow> 'a \<Rightarrow> 'a list \<Rightarrow> 'a list" where
  "insert_by le x [] = [x]"
| "insert_by le x (y # ys) = (if le x y then x # y # ys else y # insert_by le x ys)"

definition order_by :: "('a \<Rightarrow> 'a \<Rightarrow> bool) \<Rightarrow> 'a list \<Rightarrow> 'a list" where
  "order_by le xs = foldr (insert_by le) xs []"

text \<open>
  The functions of the JavaScript runtime and of its libraries that the service calls and
  that are not part of the repository are parameters of the model:
  \<open>Number(s)\<close> on a string, \<open>JSON.parse\<close> (\<^term>\<open>None\<close> when it throws),
  \<open>createHmac("sha256", secret).update(body).digest("hex")\<close>, the sum of two
  doubles with its rounding, and the text of a double in a template literal. A parsed JSON
  object is the list of its properties, each key once.
\<close>

datatype json =
    JNull | JBool bool | JNumber rat | JString string
  | JArray "json list" | JObject "(string \<times> json) list"

record runtime =
  js_Number :: "string \<Rightarrow> js_number"
  js_JSON_parse :: "string \<Rightarrow> json option"
  js_hmac_sha256_hex :: "string \<Rightarrow> string \<Rightarrow> string"
  js_add :: "rat \<Rightarrow> rat \<Rightarrow> rat"
  js_number_text :: "rat \<Rightarrow> string"

text \<open>
  \<open>Number(s)\<close> on the plain decimal literals \<open>[+-]digits[.digits]\<close> and on the empty
  string, with the literal's exact value. JavaScript rounds that value to the nearest
  double and also accepts surrounding white space, exponents, \<open>Infinity\<close> and the
  \<open>0x\<close>, \<open>0o\<close>, \<open>0b\<close> forms, which are mapped to \<^term>\<open>NaN\<close> here: this function
  instantiates the parameter \<^term>\<open>js_Number\<close> only where a statement is evaluated
  on literals such as \<open>0\<close>, \<open>101\<close>, \<open>-1\<close> or \<open>1.5\<close>; the general statements hold
  for every conversion function.
\<close>

definition digit_value :: "char \<Rightarrow> nat" where
  "digit_value c = (case map_of (zip ''0123456789'' [0, 1, 2, 3, 4, 5, 6, 7, 8, 9]) c of
                      None \<Rightarrow> 0 | Some v \<Rightarrow> v)"

definition digits_value :: "string \<Rightarrow> nat" where
  "digits_value ds = foldl (\<lambda>acc c. 10 * acc + digit_value c) 0 ds"

definition decimal_Number :: "string \<Rightarrow> js_number" where
  "decimal_Number s =
     (let neg = (case s of [] \<Rightarrow> False | c # _ \<Rightarrow> c = CHR ''-'');
          body = (case s of [] \<Rightarrow> []
                  | c # cs \<Rightarrow> if c = CHR ''-'' \<or> c = CHR ''+'' then cs else s);
          ip = takeWhile (\<lambda>c. c \<noteq> CHR ''.'') body;
          fp = drop 1 (dropWhile (\<lambda>c. c \<noteq> CHR ''.'') body)
      in if s = [] then Finite 0
         else if (ip = [] \<and> fp = []) \<or> \<not> list_all is_digit (ip @ fp) then NaN
         else Finite ((if neg then - 1 else 1)
                        * (of_nat (digits_value (ip @ fp)) / 10 ^ length fp)))"

section \<open>models.ts: the message types\<close>

record WebhookMessage =
  m_message_id :: string
  m_from :: string
  m_to :: string
  m_ts :: string
  m_text :: "string option"

record StoredMessage =
  s_message_id :: string
  s_from :: string
  s_to :: string
  s_ts :: string
  s_text :: "string option"
  s_created_at :: string

section \<open>storage.ts\<close>

subsection \<open>The SQLite database\<close>

text \<open>A row of table \<open>messages\<close>; \<open>r_text\<close> is the only nullable column.\<close>

record row =
  r_message_id :: string
  r_from_msisdn :: string
  r_to_msisdn :: string
  r_ts :: string
  r_text :: "string option"
  r_created_at :: string

text \<open>
  The database handle holds the rows of the table in insertion order and the condition of
  the storage engine: \<open>db_fault\<close> is the message of the error that the engine raises on
  every statement while the condition lasts (a failing disk, a locked or read-only file, a
  dropped table), and \<^term>\<open>None\<close> while the engine works. The module variable \<open>db\<close>
  is \<^term>\<open>None\<close> until \<open>initDb\<close> has run.
\<close>

record Database =
  db_rows :: "row list"
  db_fault :: "string option"

definition getDb :: "Database option \<Rightarrow> js_error + Database" where
  "getDb db = (case db of None \<Rightarrow> Inl (Error ''Database not initialized'')
                        | Some database \<Rightarrow> Inr database)"

text \<open>\<open>INSERT INTO messages ... VALUES (?, ?, ?, ?, ?, ?)\<close>: column \<open>message_id\<close> is
  the primary key, so the engine refuses a second row with the same key.\<close>

definition sql_insert :: "Database \<Rightarrow> row \<Rightarrow> js_error + Database" where
  "sql_insert database r =
     (case db_fault database of
        Some msg \<Rightarrow> Inl (Error msg)
      | None \<Rightarrow>
          if r_message_id r \<in> set (map r_message_id (db_rows database))
          then Inl (Error ''UNIQUE constraint failed: messages.message_id'')
          else Inr (database\<lparr>db_rows := db_rows database @ [r]\<rparr>))"

record insert_result =
  created :: bool
  dup :: bool

definition insertMessage ::
  "Database option \<Rightarrow> string \<Rightarrow> WebhookMessage
     \<Rightarrow> js_error + (insert_result \<times> Database option)" where
  "insertMessage db now message =
     (case getDb db of
        Inl e \<Rightarrow> Inl e
      | Inr database \<Rightarrow>
          (case sql_insert database
                  \<lparr>r_message_id = m_message_id message, r_from_msisdn = m_from message,
                   r_to_msisdn = m_to message, r_ts = m_ts message,
                   r_text = m_text message, r_created_at = now\<rparr> of
             Inr database' \<Rightarrow> Inr (\<lparr>created = True, dup = False\<rparr>, Some database')
           | Inl err \<Rightarrow>
               (case err of
                  Error msg \<Rightarrow>
                    if str_includes msg ''UNIQUE constraint failed: messages.message_id''
                    then Inr (\<lparr>created = False, dup = True\<rparr>, db)
                    else Inl err
                | NonError \<Rightarrow> Inl err)))"

subsection \<open>Console output\<close>

text \<open>
  What a call writes to the console: \<open>console.error(label, ...)\<close> with the error it
  reports (the SQL text and parameters printed beside it are left out), and the request
  line of \<open>logRequest\<close> (without the line's own clock reading and level).
\<close>

record request_log =
  lg_request_id :: string
  lg_method :: string
  lg_path :: string
  lg_status :: nat
  lg_latency_ms :: int
  lg_message_id :: "string option"
  lg_dup :: "bool option"
  lg_result :: "string option"

datatype log_entry = Console_error string js_error | Request_line request_log

subsection \<open>Queries\<close>

record MessageFilters =
  f_limit :: js_number
  f_offset :: js_number
  f_from :: "string option"
  f_since :: "string option"
  f_q :: "string option"

text \<open>SQLite's \<open>LOWER\<close> folds the ASCII letters only.\<close>

definition ascii_lower :: "char \<Rightarrow> char" where
  "ascii_lower c =
     (case map_of (zip ''ABCDEFGHIJKLMNOPQRSTUVWXYZ'' ''abcdefghijklmnopqrstuvwxyz'') c of
        None \<Rightarrow> c | Some l \<Rightarrow> l)"

definition sql_lower :: "string \<Rightarrow> string" where
  "sql_lower s = map ascii_lower s"

text \<open>
  The pattern matching of \<open>LIKE\<close> without an \<open>ESCAPE\<close> clause: \<open>%\<close> in the pattern
  matches any run of characters, \<open>_\<close> matches any one character, and every other
  character matches itself up to ASCII case.
\<close>

fun sql_like :: "string \<Rightarrow> string \<Rightarrow> bool" where
  "sql_like [] [] = True"
| "sql_like [] (c # cs) = False"
| "sql_like (p # ps) [] = (p = CHR ''%'' \<and> sql_like ps [])"
| "sql_like (p # ps) (c # cs) =
     (if p = CHR ''%'' then sql_like ps (c # cs) \<or> sql_like (p # ps) cs
      else if p = CHR ''_'' then sql_like ps cs
      else ascii_lower p = ascii_lower c \<and> sql_like ps cs)"

text \<open>
  The SQL function behind \<open>str LIKE pattern\<close>: a pattern of more than 50000 bytes is an
  error, whatever the string; a \<open>NULL\<close> string gives \<open>NULL\<close>, which \<open>WHERE\<close> rejects;
  otherwise both texts are read as C strings, up to their first NUL character.
\<close>

definition c_string :: "string \<Rightarrow> string" where
  "c_string s = takeWhile (\<lambda>c. c \<noteq> CHR 0x00) s"

definition like_function :: "string \<Rightarrow> string option \<Rightarrow> js_error + bool" where
  "like_function pattern str =
     (if 50000 < length pattern then Inl (Error ''LIKE or GLOB pattern too complex'')
      else Inr (case str of None \<Rightarrow> False
                | Some s \<Rightarrow> sql_like (c_string pattern) (c_string s)))"

text \<open>
  The \<open>WHERE\<close> clauses \<open>listMessages\<close> collects, each with its bound parameter:
  \<open>from_msisdn = ?\<close>, \<open>ts >= ?\<close> and \<open>LOWER(text) LIKE '%' || LOWER(?) || '%'\<close>.
\<close>

definition where_clauses :: "MessageFilters \<Rightarrow> (row \<Rightarrow> js_error + bool) list" where
  "where_clauses filters =
     (case f_from filters of
        None \<Rightarrow> []
      | Some v \<Rightarrow> if v \<noteq> [] then [\<lambda>r. Inr (r_from_msisdn r = v)] else [])
     @ (case f_since filters of
          None \<Rightarrow> []
        | Some v \<Rightarrow> if v \<noteq> [] then [\<lambda>r. Inr (v \<le> r_ts r)] else [])
     @ (case f_q filters of
          None \<Rightarrow> []
        | Some v \<Rightarrow>
            if v \<noteq> []
            then [\<lambda>r. like_function (''%'' @ sql_lower v @ ''%'')
                        (map_option sql_lower (r_text r))]
            else [])"

text \<open>
  The clauses joined by \<open>AND\<close> are tried on a row from left to right until one fails,
  and the table is scanned row by row; an error on any row ends the statement.
\<close>

fun eval_where :: "(row \<Rightarrow> js_error + bool) list \<Rightarrow> row \<Rightarrow> js_error + bool" where
  "eval_where [] r = Inr True"
| "eval_where (c # cs) r =
     (case c r of Inl e \<Rightarrow> Inl e | Inr b \<Rightarrow> if b then eval_where cs r else Inr False)"

fun sql_where :: "(row \<Rightarrow> js_error + bool) list \<Rightarrow> row list \<Rightarrow> js_error + row list" where
  "sql_where clauses [] = Inr []"
| "sql_where clauses (r # rs) =
     (case eval_where clauses r of
        Inl e \<Rightarrow> Inl e
      | Inr b \<Rightarrow>
          (case sql_where clauses rs of
             Inl e \<Rightarrow> Inl e
           | Inr matching \<Rightarrow> Inr (if b then r # matching else matching)))"

text \<open>\<open>ORDER BY ts ASC, message_id ASC\<close> and \<open>ORDER BY ts DESC, message_id DESC\<close>.\<close>

definition ts_id_asc :: "row \<Rightarrow> row \<Rightarrow> bool" where
  "ts_id_asc a b =
     (r_ts a < r_ts b \<or> (r_ts a = r_ts b \<and> r_message_id a \<le> r_message_id b))"

definition ts_id_desc :: "row \<Rightarrow> row \<Rightarrow> bool" where
  "ts_id_desc a b =
     (r_ts b < r_ts a \<or> (r_ts a = r_ts b \<and> r_message_id b \<le> r_message_id a))"

text \<open>
  \<open>LIMIT ? OFFSET ?\<close>: SQLite requires both values to convert without loss to an
  integer strictly between the smallest 64-bit integer and \<open>2^63\<close>, and raises
  \<open>datatype mismatch\<close> otherwise; a negative limit is no limit and a negative offset is
  no offset.
\<close>

definition sql_integer :: "js_number \<Rightarrow> int option" where
  "sql_integer x =
     (case x of
        Finite v \<Rightarrow>
          if of_int \<lfloor>v\<rfloor> = v \<and> - (2 ^ 63) < \<lfloor>v\<rfloor> \<and> \<lfloor>v\<rfloor> < 2 ^ 63 then Some \<lfloor>v\<rfloor> else None
      | _ \<Rightarrow> None)"

definition sql_offset :: "int \<Rightarrow> 'a list \<Rightarrow> 'a list" where
  "sql_offset k xs = (if k < 0 then xs else drop (nat k) xs)"

definition sql_limit :: "int \<Rightarrow> 'a list \<Rightarrow> 'a list" where
  "sql_limit l xs = (if l < 0 then xs else take (nat l) xs)"

text \<open>
  \<open>SELECT ... FROM messages WHERE ... ORDER BY ts ASC, message_id ASC LIMIT ? OFFSET ?\<close>.
  The limit and the offset are converted first; with a limit of 0 the table is not
  scanned at all.
\<close>

definition sql_select ::
  "Database \<Rightarrow> (row \<Rightarrow> js_error + bool) list \<Rightarrow> js_number \<Rightarrow> js_number
     \<Rightarrow> js_error + row list" where
  "sql_select database clauses limit_v offset_v =
     (case db_fault database of
        Some msg \<Rightarrow> Inl (Error msg)
      | None \<Rightarrow>
          (case sql_integer limit_v of
             None \<Rightarrow> Inl (Error ''datatype mismatch'')
           | Some l \<Rightarrow>
               (case sql_integer offset_v of
                  None \<Rightarrow> Inl (Error ''datatype mismatch'')
                | Some k \<Rightarrow>
                    (case (if l = 0 then Inr [] else sql_where clauses (db_rows database)) of
                       Inl e \<Rightarrow> Inl e
                     | Inr matching \<Rightarrow>
                         Inr (sql_limit l (sql_offset k (order_by ts_id_asc matching)))))))"

text \<open>\<open>SELECT COUNT(*) as count FROM messages WHERE ...\<close>\<close>

definition sql_count :: "Database \<Rightarrow> (row \<Rightarrow> js_error + bool) list \<Rightarrow> js_error + nat" where
  "sql_count database clauses =
     (case db_fault database of
        Some msg \<Rightarrow> Inl (Error msg)
      | None \<Rightarrow>
          (case sql_where clauses (db_rows database) of
             Inl e \<Rightarrow> Inl e
           | Inr matching \<Rightarrow> Inr (length matching)))"

definition stored_of_row :: "row \<Rightarrow> StoredMessage" where
  "stored_of_row r =
     \<lparr>s_message_id = r_message_id r, s_from = r_from_msisdn r, s_to = r_to_msisdn r,
      s_ts = r_ts r, s_text = r_text r, s_created_at = r_created_at r\<rparr>"

text \<open>\<open>listMessages\<close> returns what it wrote to the console beside its result.\<close>

definition listMessages ::
  "Database option \<Rightarrow> MessageFilters
     \<Rightarrow> log_entry list \<times> (js_error + (StoredMessage list \<times> nat))" where
  "listMessages db filters =
     (case getDb db of
        Inl e \<Rightarrow> ([], Inl e)
      | Inr database \<Rightarrow>
          (case sql_select database (where_clauses filters) (f_limit filters)
                  (f_offset filters) of
             Inl err \<Rightarrow> ([Console_error ''listMessages SQL error'' err], Inl err)
           | Inr rawRows \<Rightarrow>
               (case sql_count database (where_clauses filters) of
                  Inl err \<Rightarrow> ([Console_error ''count SQL error'' err], Inl err)
                | Inr cnt \<Rightarrow> ([], Inr (map stored_of_row rawRows, cnt)))))"

record Stats =
  total_messages :: nat
  senders_count :: nat
  messages_per_sender :: "(string \<times> nat) list"
  first_message_ts :: "string option"
  last_message_ts :: "string option"

text \<open>
  \<open>SELECT from_msisdn, COUNT(*) ... GROUP BY from_msisdn ORDER BY count DESC LIMIT 10\<close>.
  SQL leaves the order of senders with equal counts open. The engine gives the grouping
  the direction of the single \<open>ORDER BY\<close> term, so the groups are formed in descending
  sender order, and sorts them by descending count, keeping groups with equal counts in
  the order in which they were formed.
\<close>

definition sender_counts :: "row list \<Rightarrow> (string \<times> nat) list" where
  "sender_counts rows =
     take 10 (order_by (\<lambda>a b. snd b \<le> snd a)
       (map (\<lambda>f. (f, length (filter (\<lambda>r. r_from_msisdn r = f) rows)))
            (order_by (\<lambda>a b. b \<le> a) (remdups (map r_from_msisdn rows)))))"

text \<open>The five statements of \<open>getStats\<close>; the first of them already fails on a failing
  engine.\<close>

definition getStats :: "Database option \<Rightarrow> js_error + Stats" where
  "getStats db =
     (case getDb db of
        Inl e \<Rightarrow> Inl e
      | Inr database \<Rightarrow>
          (case db_fault database of
             Some msg \<Rightarrow> Inl (Error msg)
           | None \<Rightarrow>
               Inr \<lparr>total_messages = length (db_rows database),
                    senders_count = length (remdups (map r_from_msisdn (db_rows database))),
                    messages_per_sender = sender_counts (db_rows database),
                    first_message_ts =
                      (case order_by ts_id_asc (db_rows database) of
                         [] \<Rightarrow> None | r # _ \<Rightarrow> Some (r_ts r)),
                    last_message_ts =
                      (case order_by ts_id_desc (db_rows database) of
                         [] \<Rightarrow> None | r # _ \<Rightarrow> Some (r_ts r))\<rparr>))"

section \<open>security.ts\<close>

text \<open>
  \<open>s.charCodeAt(i)\<close> as the bitwise operators read it: out of range it is NaN, which
  they take as 0. The codes stay below \<open>2^16\<close>, so the 32-bit wrap-around of \<open>^\<close>
  and \<open>|=\<close> never shows and the accumulator is an integer.
\<close>

definition charCodeAt :: "string \<Rightarrow> nat \<Rightarrow> int" where
  "charCodeAt s i = (if i < length s then of_char (s ! i) else 0)"

definition timingSafeEqualHex :: "string \<Rightarrow> string \<Rightarrow> bool" where
  "timingSafeEqualHex a b =
     (if length a \<noteq> length b then False
      else fold (\<lambda>i mismatch. mismatch OR (charCodeAt a i XOR charCodeAt b i))
             [0 ..< length a] 0 = 0)"

definition computeHmac :: "runtime \<Rightarrow> string \<Rightarrow> string \<Rightarrow> string" where
  "computeHmac rt secret body = js_hmac_sha256_hex rt secret body"

definition isValidSignature ::
  "runtime \<Rightarrow> string option \<Rightarrow> string option \<Rightarrow> string \<Rightarrow> bool" where
  "isValidSignature rt provided secret rawBody =
     (case secret of
        None \<Rightarrow> False
      | Some sec \<Rightarrow>
          (case provided of
             None \<Rightarrow> False
           | Some prov \<Rightarrow>
               if sec = [] \<or> prov = [] then False
               else timingSafeEqualHex (computeHmac rt sec rawBody) prov))"

section \<open>models.ts: the schema\<close>

text \<open>A regular expression \<open>^...$\<close> of fixed length: \<open>d\<close> in the template stands for
  \<open>\d\<close>, any other character for itself.\<close>

fun matches_template :: "string \<Rightarrow> string \<Rightarrow> bool" where
  "matches_template [] [] = True"
| "matches_template (t # ts) (c # cs) =
     ((if t = CHR ''d'' then is_digit c else c = t) \<and> matches_template ts cs)"
| "matches_template _ _ = False"

text \<open>\<open>/^\d{4}-\d{2}-\d{2}T\d{2}:\d{2}:\d{2}Z$/\<close>\<close>

definition isoUtcString :: "string \<Rightarrow> bool" where
  "isoUtcString s = matches_template ''dddd-dd-ddTdd:dd:ddZ'' s"

text \<open>\<open>/^\+\d+$/\<close>\<close>

definition phoneSchema :: "string \<Rightarrow> bool" where
  "phoneSchema s =
     (case s of [] \<Rightarrow> False | c # ds \<Rightarrow> c = CHR ''+'' \<and> ds \<noteq> [] \<and> list_all is_digit ds)"

text \<open>
  \<open>webhookMessageSchema.safeParse\<close>: every failing field is reported, by its name (the
  message texts of the validation library are left out); a value that is not an object
  fails as a whole. Unknown keys are dropped.
\<close>

definition required_string :: "(string \<Rightarrow> bool) \<Rightarrow> json option \<Rightarrow> string option" where
  "required_string ok v = (case v of Some (JString s) \<Rightarrow> if ok s then Some s else None
                                   | _ \<Rightarrow> None)"

definition webhookMessageSchema_safeParse :: "json \<Rightarrow> string list + WebhookMessage" where
  "webhookMessageSchema_safeParse v =
     (case v of
        JObject props \<Rightarrow>
          (let message_id = required_string (\<lambda>s. 1 \<le> length s) (map_of props ''message_id'');
               from_v = required_string phoneSchema (map_of props ''from'');
               to_v = required_string phoneSchema (map_of props ''to'');
               ts_v = required_string isoUtcString (map_of props ''ts'');
               text_ok = (case map_of props ''text'' of
                            None \<Rightarrow> True
                          | Some (JString s) \<Rightarrow> length s \<le> 4096
                          | Some _ \<Rightarrow> False)
           in case (message_id, from_v, to_v, ts_v, text_ok) of
                (Some i, Some f, Some t, Some s, True) \<Rightarrow>
                  Inr \<lparr>m_message_id = i, m_from = f, m_to = t, m_ts = s,
                       m_text = (case map_of props ''text'' of
                                   Some (JString x) \<Rightarrow> Some x | _ \<Rightarrow> None)\<rparr>
              | _ \<Rightarrow>
                  Inl ((if message_id = None then [''message_id''] else [])
                       @ (if from_v = None then [''from''] else [])
                       @ (if to_v = None then [''to''] else [])
                       @ (if ts_v = None then [''ts''] else [])
                       @ (if text_ok then [] else [''text''])))
      | _ \<Rightarrow> Inl [Nil])"

section \<open>metrics.ts\<close>

text \<open>
  A counter object is the list of its entries in the order \<open>Object.entries\<close> lists
  them: insertion order, the keys used here never being integers. The keys of
  \<open>latencyBuckets\<close> are the bounds 100, 500 and Infinity.
\<close>

datatype bucket_bound = Bound nat | Infinity

record Metrics =
  httpRequests :: "(string \<times> nat) list"
  webhookResults :: "(string \<times> nat) list"
  latencyBuckets :: "(bucket_bound \<times> nat) list"
  latencyCount :: nat
  latencyTotal :: rat

definition initial_metrics :: Metrics where
  "initial_metrics =
     \<lparr>httpRequests = [], webhookResults = [],
      latencyBuckets = [(Bound 100, 0), (Bound 500, 0), (Infinity, 0)],
      latencyCount = 0, latencyTotal = 0\<rparr>"

text \<open>\<open>c[key] = v\<close>: an existing key keeps its place, a new one goes last.\<close>

fun set_key :: "'k \<Rightarrow> nat \<Rightarrow> ('k \<times> nat) list \<Rightarrow> ('k \<times> nat) list" where
  "set_key k v [] = [(k, v)]"
| "set_key k v (e # es) = (if fst e = k then (k, v) # es else e # set_key k v es)"

text \<open>\<open>c[key] = (c[key] ?? 0) + 1\<close>\<close>

definition increment :: "'k \<Rightarrow> ('k \<times> nat) list \<Rightarrow> ('k \<times> nat) list" where
  "increment k c = set_key k ((case map_of c k of None \<Rightarrow> 0 | Some n \<Rightarrow> n) + 1) c"

definition recordHttpRequest :: "Metrics \<Rightarrow> string \<Rightarrow> nat \<Rightarrow> Metrics" where
  "recordHttpRequest m path status =
     m\<lparr>httpRequests := increment (path @ ''|'' @ show_nat status) (httpRequests m)\<rparr>"

definition recordWebhookResult :: "Metrics \<Rightarrow> string \<Rightarrow> Metrics" where
  "recordWebhookResult m result = m\<lparr>webhookResults := increment result (webhookResults m)\<rparr>"

text \<open>\<open>latencyTotal += ms\<close> is an addition of doubles.\<close>

definition recordLatency :: "runtime \<Rightarrow> Metrics \<Rightarrow> rat \<Rightarrow> Metrics" where
  "recordLatency rt m ms =
     m\<lparr>latencyCount := latencyCount m + 1,
       latencyTotal := js_add rt (latencyTotal m) ms,
       latencyBuckets :=
         (if ms \<le> 100 then increment (Bound 100) (latencyBuckets m)
          else if ms \<le> 500 then increment (Bound 500) (latencyBuckets m)
          else increment Infinity (latencyBuckets m))\<rparr>"

text \<open>The comparator \<open>(a, b) => (a === Infinity ? 1 : b === Infinity ? -1 : a - b)\<close>;
  \<open>sort\<close> leaves \<open>a\<close> before \<open>b\<close> unless the comparator is positive.\<close>

definition bucket_cmp :: "bucket_bound \<Rightarrow> bucket_bound \<Rightarrow> int" where
  "bucket_cmp a b =
     (case a of
        Infinity \<Rightarrow> 1
      | Bound x \<Rightarrow> (case b of Infinity \<Rightarrow> - 1 | Bound y \<Rightarrow> int x - int y))"

definition nth_or_undefined :: "string list \<Rightarrow> nat \<Rightarrow> string" where
  "nth_or_undefined parts i = (if i < length parts then parts ! i else ''undefined'')"

definition http_line :: "string \<times> nat \<Rightarrow> string" where
  \<open>http_line e =
     (let parts = split_on CHR ''|'' (fst e)
      in ''http_requests_total{path="'' @ nth_or_undefined parts 0 @ ''",status="''
         @ nth_or_undefined parts 1 @ ''"} '' @ show_nat (snd e))\<close>

definition webhook_line :: "string \<times> nat \<Rightarrow> string" where
  \<open>webhook_line e = ''webhook_requests_total{result="'' @ fst e @ ''"} '' @ show_nat (snd e)\<close>

definition bucket_label :: "bucket_bound \<Rightarrow> string" where
  "bucket_label le = (case le of Infinity \<Rightarrow> ''+Inf'' | Bound n \<Rightarrow> show_nat n)"

definition bucket_line :: "bucket_bound \<Rightarrow> nat \<Rightarrow> string" where
  \<open>bucket_line le cumulative =
     ''request_latency_ms_bucket{le="'' @ bucket_label le @ ''"} '' @ show_nat cumulative\<close>

text \<open>The loop over the sorted bounds, with its running \<open>cumulative\<close>.\<close>

fun bucket_lines :: "(bucket_bound \<times> nat) list \<Rightarrow> nat \<Rightarrow> bucket_bound list \<Rightarrow> string list" where
  "bucket_lines latency cumulative [] = []"
| "bucket_lines latency cumulative (le # les) =
     (let cumulative' = cumulative + (case map_of latency le of None \<Rightarrow> 0 | Some n \<Rightarrow> n)
      in bucket_line le cumulative' # bucket_lines latency cumulative' les)"

definition metrics_lines :: "runtime \<Rightarrow> Metrics \<Rightarrow> string list" where
  "metrics_lines rt m =
     map http_line (httpRequests m)
     @ map webhook_line (webhookResults m)
     @ bucket_lines (latencyBuckets m) 0
         (order_by (\<lambda>a b. \<not> 0 < bucket_cmp a b) (map fst (latencyBuckets m)))
     @ [''request_latency_ms_count '' @ show_nat (latencyCount m),
        ''request_latency_ms_sum '' @ js_number_text rt (latencyTotal m)]"

definition renderMetrics :: "runtime \<Rightarrow> Metrics \<Rightarrow> string" where
  "renderMetrics rt m = join [CHR 0x0A] (metrics_lines rt m) @ [CHR 0x0A]"

section \<open>logging_utils.ts\<close>

datatype LogLevel = DEBUG | INFO | ERROR

definition levelOrder :: "LogLevel \<Rightarrow> nat" where
  "levelOrder l = (case l of DEBUG \<Rightarrow> 0 | INFO \<Rightarrow> 1 | ERROR \<Rightarrow> 2)"

definition logJSON :: "LogLevel \<Rightarrow> request_log \<Rightarrow> LogLevel \<Rightarrow> log_entry list" where
  "logJSON level payload logLevel =
     (if levelOrder level < levelOrder logLevel then [] else [Request_line payload])"

definition logRequest :: "LogLevel \<Rightarrow> request_log \<Rightarrow> log_entry list" where
  "logRequest logLevel line = logJSON INFO line logLevel"

section \<open>main.ts\<close>

record AppConfig =
  databaseUrl :: string
  webhookSecret :: "string option"
  logLevel :: LogLevel

text \<open>The response bodies: \<open>{detail}\<close>, \<open>{status: "ok"}\<close>, the formatted schema
  errors, and the page \<open>{data, total, limit, offset}\<close>.\<close>

datatype body =
    Detail string
  | Status_ok
  | Schema_errors "string list"
  | Messages_page "StoredMessage list" nat js_number js_number

record response =
  res_status :: nat
  res_body :: body

text \<open>What a request reads from its surroundings: the random request identifier, the
  elapsed time that \<open>finalize\<close> measures, and the clock that stamps \<open>created_at\<close>.\<close>

record request_env =
  e_request_id :: string
  e_latency :: rat
  e_now :: string

text \<open>The state shared by the requests: the database handle and the counters.\<close>

record server =
  st_db :: "Database option"
  st_metrics :: Metrics

subsection \<open>POST /webhook\<close>

record webhook_request =
  w_signature :: "string option"
  w_body :: string

text \<open>The handler's local variables as \<open>finalize\<close> finds them.\<close>

record webhook_vars =
  v_status :: nat
  v_result :: string
  v_dup :: bool
  v_messageId :: "string option"

definition error_detail :: "js_error \<Rightarrow> string" where
  "error_detail err = (case err of Error message \<Rightarrow> message | NonError \<Rightarrow> ''unknown error'')"

text \<open>The \<open>try\<close> block with its \<open>catch\<close>: the response sent, the variables, and
  the state after it.\<close>

definition webhook_try ::
  "runtime \<Rightarrow> AppConfig \<Rightarrow> request_env \<Rightarrow> webhook_request \<Rightarrow> server
     \<Rightarrow> response \<times> webhook_vars \<times> server" where
  "webhook_try rt config env req st =
     (if \<not> truthy (webhookSecret config)
      then (\<lparr>res_status = 503, res_body = Detail ''service not ready''\<rparr>,
            \<lparr>v_status = 503, v_result = ''secret_missing'', v_dup = False,
             v_messageId = None\<rparr>, st)
      else if \<not> isValidSignature rt (w_signature req) (webhookSecret config) (w_body req)
      then (\<lparr>res_status = 401, res_body = Detail ''invalid signature''\<rparr>,
            \<lparr>v_status = 401, v_result = ''invalid_signature'', v_dup = False,
             v_messageId = None\<rparr>, st)
      else
        (case js_JSON_parse rt (w_body req) of
           None \<Rightarrow>
             (\<lparr>res_status = 422, res_body = Detail ''invalid json''\<rparr>,
              \<lparr>v_status = 422, v_result = ''validation_error'', v_dup = False,
               v_messageId = None\<rparr>, st)
         | Some bodyJson \<Rightarrow>
             (case webhookMessageSchema_safeParse bodyJson of
                Inl issues \<Rightarrow>
                  (\<lparr>res_status = 422, res_body = Schema_errors issues\<rparr>,
                   \<lparr>v_status = 422, v_result = ''validation_error'', v_dup = False,
                    v_messageId = None\<rparr>, st)
              | Inr msg \<Rightarrow>
                  (case insertMessage (st_db st) (e_now env) msg of
                     Inl err \<Rightarrow>
                       (\<lparr>res_status = 500, res_body = Detail (error_detail err)\<rparr>,
                        \<lparr>v_status = 500, v_result = ''error'', v_dup = False,
                         v_messageId = Some (m_message_id msg)\<rparr>, st)
                   | Inr (ins, db') \<Rightarrow>
                       (let result = (if dup ins then ''duplicate'' else ''created'')
                        in (\<lparr>res_status = 200, res_body = Status_ok\<rparr>,
                            \<lparr>v_status = 200, v_result = result, v_dup = dup ins,
                             v_messageId = Some (m_message_id msg)\<rparr>,
                            st\<lparr>st_db := db',
                               st_metrics := recordWebhookResult (st_metrics st) result\<rparr>))))))"

text \<open>The whole handler: the \<open>try\<close> block, then \<open>finalize\<close> in the \<open>finally\<close>
  clause. \<open>Math.round\<close> rounds halves up.\<close>

definition webhook_handler ::
  "runtime \<Rightarrow> AppConfig \<Rightarrow> request_env \<Rightarrow> webhook_request \<Rightarrow> server
     \<Rightarrow> response \<times> server \<times> log_entry list" where
  "webhook_handler rt config env req st =
     (case webhook_try rt config env req st of
        (res, vars, st') \<Rightarrow>
          (res,
           st'\<lparr>st_metrics :=
                 recordLatency rt
                   (recordHttpRequest (st_metrics st') ''/webhook'' (v_status vars))
                   (e_latency env)\<rparr>,
           logRequest (logLevel config)
             \<lparr>lg_request_id = e_request_id env, lg_method = ''POST'', lg_path = ''/webhook'',
              lg_status = v_status vars, lg_latency_ms = \<lfloor>e_latency env + 1 / 2\<rfloor>,
              lg_message_id = v_messageId vars, lg_dup = Some (v_dup vars),
              lg_result = Some (v_result vars)\<rparr>))"

subsection \<open>GET /messages\<close>

text \<open>The query string is the list of its decoded pairs; \<open>searchParams.get\<close> reads the
  first value of a name.\<close>

definition parseMessagesQuery ::
  "runtime \<Rightarrow> (string \<times> string) list \<Rightarrow> response + MessageFilters" where
  "parseMessagesQuery rt searchParams =
     (let limit = map_of searchParams ''limit'';
          offset = map_of searchParams ''offset'';
          from_v = map_of searchParams ''from'';
          since = map_of searchParams ''since'';
          q = map_of searchParams ''q'';
          limitNum = (case limit of None \<Rightarrow> Finite 50
                      | Some l \<Rightarrow> if l \<noteq> [] then js_Number rt l else Finite 50);
          offsetNum = (case offset of None \<Rightarrow> Finite 0
                       | Some k \<Rightarrow> if k \<noteq> [] then js_Number rt k else Finite 0)
      in if limitNum = NaN \<or> js_less limitNum (Finite 1) \<or> js_less (Finite 100) limitNum
            \<or> offsetNum = NaN \<or> js_less offsetNum (Finite 0)
         then Inl \<lparr>res_status = 422,
                   res_body = Detail ''limit must be 1-100 and offset must be >=0''\<rparr>
         else if (case since of None \<Rightarrow> False | Some v \<Rightarrow> v \<noteq> [] \<and> \<not> isoUtcString v)
         then Inl \<lparr>res_status = 422, res_body = Detail ''invalid since''\<rparr>
         else Inr \<lparr>f_limit = limitNum, f_offset = offsetNum, f_from = from_v,
                   f_since = since, f_q = q\<rparr>)"

text \<open>The \<open>try\<close> block with its \<open>catch\<close>: the response, and the console output of
  \<open>listMessages\<close> and of the \<open>catch\<close> clause.\<close>

definition messages_try ::
  "runtime \<Rightarrow> (string \<times> string) list \<Rightarrow> server \<Rightarrow> response \<times> log_entry list" where
  "messages_try rt searchParams st =
     (case parseMessagesQuery rt searchParams of
        Inl err \<Rightarrow> (err, [])
      | Inr filters \<Rightarrow>
          (case listMessages (st_db st) filters of
             (out, Inr (data, cnt)) \<Rightarrow>
               (\<lparr>res_status = 200,
                 res_body = Messages_page data cnt (f_limit filters) (f_offset filters)\<rparr>,
                out)
           | (out, Inl err) \<Rightarrow>
               (\<lparr>res_status = 500, res_body = Detail (error_detail err)\<rparr>,
                out @ [Console_error ''/messages handler error'' err])))"

definition messages_handler ::
  "runtime \<Rightarrow> AppConfig \<Rightarrow> request_env \<Rightarrow> (string \<times> string) list \<Rightarrow> server
     \<Rightarrow> response \<times> server \<times> log_entry list" where
  "messages_handler rt config env searchParams st =
     (case messages_try rt searchParams st of
        (res, out) \<Rightarrow>
          (res,
           st\<lparr>st_metrics :=
                recordLatency rt
                  (recordHttpRequest (st_metrics st) ''/messages'' (res_status res))
                  (e_latency env)\<rparr>,
           out @ logRequest (logLevel config)
             \<lparr>lg_request_id = e_request_id env, lg_method = ''GET'', lg_path = ''/messages'',
              lg_status = res_status res, lg_latency_ms = \<lfloor>e_latency env + 1 / 2\<rfloor>,
              lg_message_id = None, lg_dup = None, lg_result = None\<rparr>))"

section \<open>The specification's wording\<close>

text \<open>
  Notions written after the specification, to be compared with what the code computes: a
  \<open>limit\<close> that is an integer in \<open>[1,100]\<close>, a text that contains the query \<open>q\<close> as a
  substring when the case of the ASCII letters is ignored (an absent text contains
  nothing), and a query string from which one parameter is left out.
\<close>

definition spec_limit_valid :: "js_number \<Rightarrow> bool" where
  "spec_limit_valid v =
     (case v of Finite x \<Rightarrow> of_int \<lfloor>x\<rfloor> = x \<and> 1 \<le> x \<and> x \<le> 100 | _ \<Rightarrow> False)"

definition spec_q_matches :: "string option \<Rightarrow> string \<Rightarrow> bool" where
  "spec_q_matches text_v q =
     (case text_v of None \<Rightarrow> False | Some t \<Rightarrow> str_includes (sql_lower t) (sql_lower q))"


section \<open>Idempotent insert\<close>

lemma starts_with_self: "starts_with s s"
  by (simp add: starts_with_def)

lemma str_includes_self: "str_includes s s"
  by (cases s) (simp_all add: starts_with_self)

lemma insertMessage_new:
  assumes "m_message_id m \<notin> r_message_id ` set rows"
  shows "insertMessage (Some \<lparr>db_rows = rows, db_fault = None\<rparr>) now m =
           Inr (\<lparr>created = True, dup = False\<rparr>,
                Some \<lparr>db_rows =
                        rows @ [\<lparr>r_message_id = m_message_id m, r_from_msisdn = m_from m,
                                 r_to_msisdn = m_to m, r_ts = m_ts m, r_text = m_text m,
                                 r_created_at = now\<rparr>],
                      db_fault = None\<rparr>)"
  using assms by (simp add: insertMessage_def getDb_def sql_insert_def)

lemma insertMessage_dup:
  assumes "m_message_id m \<in> r_message_id ` set rows"
  shows "insertMessage (Some \<lparr>db_rows = rows, db_fault = None\<rparr>) now m =
           Inr (\<lparr>created = False, dup = True\<rparr>, Some \<lparr>db_rows = rows, db_fault = None\<rparr>)"
  using assms str_includes_self
  by (simp add: insertMessage_def getDb_def sql_insert_def del: str_includes.simps)

text \<open>
  Claim C1. On an initialised store with a working engine and no row keyed
  \<open>m.message_id\<close>, \<open>insertMessage\<close> reports \<open>created = true, dup = false\<close> and adds
  exactly one row holding the submitted fields; a later insert of any message with the
  same \<open>message_id\<close>, whatever its other fields, reports \<open>dup = true\<close> and leaves the
  store as it was, so the key still selects exactly the first row.
\<close>

theorem insertMessage_idempotent:
  assumes fresh: "m_message_id m \<notin> r_message_id ` set rows"
    and same: "m_message_id m' = m_message_id m"
  shows "insertMessage (Some \<lparr>db_rows = rows, db_fault = None\<rparr>) now m =
           Inr (\<lparr>created = True, dup = False\<rparr>,
                Some \<lparr>db_rows =
                        rows @ [\<lparr>r_message_id = m_message_id m, r_from_msisdn = m_from m,
                                 r_to_msisdn = m_to m, r_ts = m_ts m, r_text = m_text m,
                                 r_created_at = now\<rparr>],
                      db_fault = None\<rparr>)
       \<and> insertMessage
             (Some \<lparr>db_rows =
                      rows @ [\<lparr>r_message_id = m_message_id m, r_from_msisdn = m_from m,
                               r_to_msisdn = m_to m, r_ts = m_ts m, r_text = m_text m,
                               r_created_at = now\<rparr>],
                    db_fault = None\<rparr>) now' m' =
           Inr (\<lparr>created = False, dup = True\<rparr>,
                Some \<lparr>db_rows =
                        rows @ [\<lparr>r_message_id = m_message_id m, r_from_msisdn = m_from m,
                                 r_to_msisdn = m_to m, r_ts = m_ts m, r_text = m_text m,
                                 r_created_at = now\<rparr>],
                      db_fault = None\<rparr>)
       \<and> filter (\<lambda>r. r_message_id r = m_message_id m)
             (rows @ [\<lparr>r_message_id = m_message_id m, r_from_msisdn = m_from m,
                       r_to_msisdn = m_to m, r_ts = m_ts m, r_text = m_text m,
                       r_created_at = now\<rparr>]) =
           [\<lparr>r_message_id = m_message_id m, r_from_msisdn = m_from m,
             r_to_msisdn = m_to m, r_ts = m_ts m, r_text = m_text m,
             r_created_at = now\<rparr>]"
proof (intro conjI)
  show "insertMessage (Some \<lparr>db_rows = rows, db_fault = None\<rparr>) now m =
           Inr (\<lparr>created = True, dup = False\<rparr>,
                Some \<lparr>db_rows =
                        rows @ [\<lparr>r_message_id = m_message_id m, r_from_msisdn = m_from m,
                                 r_to_msisdn = m_to m, r_ts = m_ts m, r_text = m_text m,
                                 r_created_at = now\<rparr>],
                      db_fault = None\<rparr>)"
    by (rule insertMessage_new [OF fresh])
next
  show "insertMessage
             (Some \<lparr>db_rows =
                      rows @ [\<lparr>r_message_id = m_message_id m, r_from_msisdn = m_from m,
                               r_to_msisdn = m_to m, r_ts = m_ts m, r_text = m_text m,
                               r_created_at = now\<rparr>],
                    db_fault = None\<rparr>) now' m' =
           Inr (\<lparr>created = False, dup = True\<rparr>,
                Some \<lparr>db_rows =
                        rows @ [\<lparr>r_message_id = m_message_id m, r_from_msisdn = m_from m,
                                 r_to_msisdn = m_to m, r_ts = m_ts m, r_text = m_text m,
                                 r_created_at = now\<rparr>],
                      db_fault = None\<rparr>)"
    by (rule insertMessage_dup) (simp add: same)
next
  have "filter (\<lambda>r. r_message_id r = m_message_id m) rows = []"
    using fresh by (force simp: filter_empty_conv)
  then show "filter (\<lambda>r. r_message_id r = m_message_id m)
             (rows @ [\<lparr>r_message_id = m_message_id m, r_from_msisdn = m_from m,
                       r_to_msisdn = m_to m, r_ts = m_ts m, r_text = m_text m,
                       r_created_at = now\<rparr>]) =
           [\<lparr>r_message_id = m_message_id m, r_from_msisdn = m_from m,
             r_to_msisdn = m_to m, r_ts = m_ts m, r_text = m_text m,
             r_created_at = now\<rparr>]"
    by simp
qed

text \<open>The theorem at an empty store: the second insert changes \<open>to\<close> and \<open>text\<close>.\<close>

theorem insertMessage_idempotent_witness:
  "insertMessage (Some \<lparr>db_rows = [], db_fault = None\<rparr>) ''2025-01-15T10:00:01Z''
     \<lparr>m_message_id = ''m1'', m_from = ''+100'', m_to = ''+200'',
      m_ts = ''2025-01-15T10:00:00Z'', m_text = Some ''hi''\<rparr> =
   Inr (\<lparr>created = True, dup = False\<rparr>,
        Some \<lparr>db_rows =
                [\<lparr>r_message_id = ''m1'', r_from_msisdn = ''+100'', r_to_msisdn = ''+200'',
                  r_ts = ''2025-01-15T10:00:00Z'', r_text = Some ''hi'',
                  r_created_at = ''2025-01-15T10:00:01Z''\<rparr>],
              db_fault = None\<rparr>)
   \<and> insertMessage
        (Some \<lparr>db_rows =
                [\<lparr>r_message_id = ''m1'', r_from_msisdn = ''+100'', r_to_msisdn = ''+200'',
                  r_ts = ''2025-01-15T10:00:00Z'', r_text = Some ''hi'',
                  r_created_at = ''2025-01-15T10:00:01Z''\<rparr>],
              db_fault = None\<rparr>) ''2025-01-15T10:00:02Z''
        \<lparr>m_message_id = ''m1'', m_from = ''+100'', m_to = ''+300'',
         m_ts = ''2025-01-15T10:00:00Z'', m_text = Some ''changed''\<rparr> =
   Inr (\<lparr>created = False, dup = True\<rparr>,
        Some \<lparr>db_rows =
                [\<lparr>r_message_id = ''m1'', r_from_msisdn = ''+100'', r_to_msisdn = ''+200'',
                  r_ts = ''2025-01-15T10:00:00Z'', r_text = Some ''hi'',
                  r_created_at = ''2025-01-15T10:00:01Z''\<rparr>],
              db_fault = None\<rparr>)"
  using insertMessage_idempotent
    [of "\<lparr>m_message_id = ''m1'', m_from = ''+100'', m_to = ''+200'',
          m_ts = ''2025-01-15T10:00:00Z'', m_text = Some ''hi''\<rparr>" "[]"
        "\<lparr>m_message_id = ''m1'', m_from = ''+100'', m_to = ''+300'',
          m_ts = ''2025-01-15T10:00:00Z'', m_text = Some ''changed''\<rparr>"
        "''2025-01-15T10:00:01Z''" "''2025-01-15T10:00:02Z''"]
  by simp

section \<open>Ordering, statistics and the round trip\<close>

lemma mset_insert_by: "mset (insert_by le x xs) = add_mset x (mset xs)"
  by (induction xs) auto

lemma mset_order_by: "mset (order_by le xs) = mset xs"
  unfolding order_by_def by (induction xs) (auto simp: mset_insert_by)

lemma set_order_by: "set (order_by le xs) = set xs"
  using mset_order_by [of le xs] by (metis set_mset_mset)

lemma length_order_by: "length (order_by le xs) = length xs"
  using mset_order_by [of le xs] by (metis size_mset)

lemma order_by_Nil_iff: "order_by le xs = [] \<longleftrightarrow> xs = []"
  using length_order_by [of le xs] by (metis length_0_conv)

lemma sorted_wrt_insert_by:
  assumes total: "\<And>a b. le a b \<or> le b a"
    and trans: "\<And>a b c. le a b \<Longrightarrow> le b c \<Longrightarrow> le a c"
    and sorted: "sorted_wrt le xs"
  shows "sorted_wrt le (insert_by le x xs)"
  using sorted
proof (induction xs)
  case Nil
  then show ?case by simp
next
  case (Cons y ys)
  show ?case
  proof (cases "le x y")
    case True
    then have "\<forall>z\<in>set ys. le x z"
      using Cons.prems trans [OF True] by auto
    with True Cons.prems show ?thesis by simp
  next
    case False
    then have "le y x" using total by blast
    moreover have "set (insert_by le x ys) = insert x (set ys)"
      using mset_insert_by [of le x ys] by (metis set_mset_mset set_mset_add_mset_insert)
    moreover have "sorted_wrt le (insert_by le x ys)"
      using Cons by simp
    ultimately show ?thesis
      using False Cons.prems by auto
  qed
qed

lemma sorted_wrt_order_by:
  assumes "\<And>a b. le a b \<or> le b a" and "\<And>a b c. le a b \<Longrightarrow> le b c \<Longrightarrow> le a c"
  shows "sorted_wrt le (order_by le xs)"
  unfolding order_by_def
proof (induction xs)
  case Nil
  show ?case by simp
next
  case (Cons x xs)
  have "sorted_wrt le (insert_by le x (foldr (insert_by le) xs []))"
    by (rule sorted_wrt_insert_by [OF assms Cons])
  then show ?case by simp
qed

lemma ts_id_asc_total: "ts_id_asc a b \<or> ts_id_asc b a"
  unfolding ts_id_asc_def by auto

lemma lex_pair_trans:
  fixes t1 t2 t3 :: "'a::linorder" and i1 i2 i3 :: "'b::linorder"
  assumes "t1 < t2 \<or> (t1 = t2 \<and> i1 \<le> i2)" and "t2 < t3 \<or> (t2 = t3 \<and> i2 \<le> i3)"
  shows "t1 < t3 \<or> (t1 = t3 \<and> i1 \<le> i3)"
  using assms by (metis less_trans order_trans)

lemma lex_pair_antisym:
  fixes t1 t2 :: "'a::linorder" and i1 i2 :: "'b::linorder"
  assumes "t1 < t2 \<or> (t1 = t2 \<and> i1 \<le> i2)" and "t2 < t1 \<or> (t2 = t1 \<and> i2 \<le> i1)"
  shows "t1 = t2"
  using assms by (metis less_asym)

lemma ts_id_asc_trans:
  assumes "ts_id_asc a b" and "ts_id_asc b c"
  shows "ts_id_asc a c"
proof -
  have ab: "r_ts a < r_ts b \<or> (r_ts a = r_ts b \<and> r_message_id a \<le> r_message_id b)"
    using assms(1) by (simp only: ts_id_asc_def)
  have bc: "r_ts b < r_ts c \<or> (r_ts b = r_ts c \<and> r_message_id b \<le> r_message_id c)"
    using assms(2) by (simp only: ts_id_asc_def)
  show ?thesis
    unfolding ts_id_asc_def by (rule lex_pair_trans [OF ab bc])
qed

lemma ts_id_asc_same_ts:
  assumes "ts_id_asc a b" and "ts_id_asc b a"
  shows "r_ts a = r_ts b"
proof -
  have ab: "r_ts a < r_ts b \<or> (r_ts a = r_ts b \<and> r_message_id a \<le> r_message_id b)"
    using assms(1) by (simp only: ts_id_asc_def)
  have ba: "r_ts b < r_ts a \<or> (r_ts b = r_ts a \<and> r_message_id b \<le> r_message_id a)"
    using assms(2) by (simp only: ts_id_asc_def)
  show ?thesis
    by (rule lex_pair_antisym [OF ab ba])
qed

lemma ts_id_desc_total: "ts_id_desc a b \<or> ts_id_desc b a"
  unfolding ts_id_desc_def by auto

lemma ts_id_desc_asc: "ts_id_desc a b = ts_id_asc b a"
  unfolding ts_id_desc_def ts_id_asc_def by auto

lemma ts_id_desc_trans:
  assumes "ts_id_desc a b" and "ts_id_desc b c"
  shows "ts_id_desc a c"
  using assms ts_id_asc_trans [of c b a] by (simp only: ts_id_desc_asc)

lemma sorted_wrt_last:
  assumes "sorted_wrt le xs" and "\<And>a. le a a" and "x \<in> set xs"
  shows "le x (last xs)"
  using assms by (induction xs) auto

lemma sorted_wrt_hd:
  assumes "sorted_wrt le xs" and "\<And>a. le a a" and "x \<in> set xs"
  shows "le (hd xs) x"
  using assms by (cases xs) auto

lemma last_asc_hd_desc_ts:
  assumes "rows \<noteq> []"
  shows "r_ts (hd (order_by ts_id_desc rows)) = r_ts (last (order_by ts_id_asc rows))"
proof -
  let ?up = "order_by ts_id_asc rows" and ?down = "order_by ts_id_desc rows"
  have up: "sorted_wrt ts_id_asc ?up"
    by (rule sorted_wrt_order_by) (use ts_id_asc_total ts_id_asc_trans in blast)+
  have down: "sorted_wrt ts_id_desc ?down"
    by (rule sorted_wrt_order_by) (use ts_id_desc_total ts_id_desc_trans in blast)+
  have ne: "?up \<noteq> []" "?down \<noteq> []"
    using assms by (simp_all add: order_by_Nil_iff)
  have "hd ?down \<in> set ?down" "last ?up \<in> set ?up"
    using ne by simp_all
  then have mem: "hd ?down \<in> set ?up" "last ?up \<in> set ?down"
    by (simp_all only: set_order_by)
  have le1: "ts_id_asc (hd ?down) (last ?up)"
    using sorted_wrt_last [OF up _ mem(1)] ts_id_asc_total by blast
  have "ts_id_desc (hd ?down) (last ?up)"
    using sorted_wrt_hd [OF down _ mem(2)] ts_id_desc_total by blast
  then have le2: "ts_id_asc (last ?up) (hd ?down)"
    by (simp only: ts_id_desc_asc)
  show ?thesis
    by (rule ts_id_asc_same_ts [OF le1 le2])
qed

lemma where_clauses_none:
  assumes "f_from f = None" "f_since f = None" "f_q f = None"
  shows "where_clauses f = []"
  using assms by (simp add: where_clauses_def)

lemma sql_where_no_clauses: "sql_where [] rows = Inr rows"
  by (induction rows) simp_all

lemma sql_limit_0: "sql_limit 0 xs = []"
  by (simp add: sql_limit_def)

lemma sorted_wrt_take_drop:
  assumes "sorted_wrt le xs"
  shows "sorted_wrt le (sql_limit l (sql_offset k xs))"
  using assms by (simp add: sql_limit_def sql_offset_def sorted_wrt_take sorted_wrt_drop)

lemma sorted_wrt_stored:
  assumes "sorted_wrt ts_id_asc xs"
  shows "sorted_wrt (\<lambda>a b. s_ts a < s_ts b \<or> (s_ts a = s_ts b \<and> s_message_id a \<le> s_message_id b))
           (map stored_of_row xs)"
  using assms by (induction xs) (auto simp: stored_of_row_def ts_id_asc_def)

lemma sql_select_no_clauses:
  assumes "sql_integer limit_v = Some l" and "sql_integer offset_v = Some k"
  shows "sql_select \<lparr>db_rows = rows, db_fault = None\<rparr> [] limit_v offset_v =
           Inr (sql_limit l (sql_offset k (order_by ts_id_asc rows)))"
proof (cases "l = 0")
  case True
  then show ?thesis
    using assms by (simp add: sql_select_def sql_limit_0)
next
  case False
  then show ?thesis
    using assms by (simp add: sql_select_def sql_where_no_clauses)
qed

text \<open>
  Claim C3. On an initialised store with a working engine, \<open>listMessages\<close> without
  filters returns the page cut by \<open>LIMIT\<close> and \<open>OFFSET\<close> from a rearrangement of all
  stored rows that is ascending in \<open>ts\<close>, with equal \<open>ts\<close> ordered by \<open>message_id\<close>;
  the page is ascending in the same way, the total is the number of stored rows, and
  \<open>getStats\<close> reports as \<open>first_message_ts\<close> and \<open>last_message_ts\<close> the \<open>ts\<close> of the
  first and of the last row of that rearrangement, or null for both on an empty store.
\<close>

theorem listMessages_sorted_and_stats_ends:
  assumes nofilter: "f_from f = None" "f_since f = None" "f_q f = None"
    and limit: "sql_integer (f_limit f) = Some l"
    and offset: "sql_integer (f_offset f) = Some k"
  shows "\<exists>page. snd (listMessages (Some \<lparr>db_rows = rows, db_fault = None\<rparr>) f)
                   = Inr (map stored_of_row page, length rows)
           \<and> page = sql_limit l (sql_offset k (order_by ts_id_asc rows))
           \<and> mset (order_by ts_id_asc rows) = mset rows
           \<and> sorted_wrt ts_id_asc (order_by ts_id_asc rows)
           \<and> sorted_wrt (\<lambda>a b. s_ts a < s_ts b
                                \<or> (s_ts a = s_ts b \<and> s_message_id a \<le> s_message_id b))
                (map stored_of_row page)
           \<and> (\<exists>stats. getStats (Some \<lparr>db_rows = rows, db_fault = None\<rparr>) = Inr stats
                 \<and> first_message_ts stats =
                     (if rows = [] then None else Some (r_ts (hd (order_by ts_id_asc rows))))
                 \<and> last_message_ts stats =
                     (if rows = [] then None else Some (r_ts (last (order_by ts_id_asc rows)))))"
proof -
  let ?db = "Some \<lparr>db_rows = rows, db_fault = None\<rparr>"
  let ?all = "order_by ts_id_asc rows"
  let ?page = "sql_limit l (sql_offset k ?all)"
  have sorted_all: "sorted_wrt ts_id_asc ?all"
    by (rule sorted_wrt_order_by) (use ts_id_asc_total ts_id_asc_trans in blast)+
  have list: "snd (listMessages ?db f) = Inr (map stored_of_row ?page, length rows)"
    by (simp add: listMessages_def getDb_def where_clauses_none [OF nofilter]
        sql_select_no_clauses [OF limit offset] sql_count_def sql_where_no_clauses)
  have sorted_page: "sorted_wrt ts_id_asc ?page"
    by (rule sorted_wrt_take_drop [OF sorted_all])
  have first: "first_message_ts (projr (getStats ?db)) =
                 (if rows = [] then None else Some (r_ts (hd ?all)))"
  proof (cases "rows = []")
    case True
    then show ?thesis by (simp add: getStats_def getDb_def order_by_def)
  next
    case False
    then have "?all \<noteq> []" by (simp add: order_by_Nil_iff)
    then show ?thesis
      using False by (cases ?all) (simp_all add: getStats_def getDb_def)
  qed
  have last: "last_message_ts (projr (getStats ?db)) =
                (if rows = [] then None else Some (r_ts (last ?all)))"
  proof (cases "rows = []")
    case True
    then show ?thesis by (simp add: getStats_def getDb_def order_by_def)
  next
    case False
    then have "order_by ts_id_desc rows \<noteq> []" by (simp add: order_by_Nil_iff)
    then show ?thesis
      using False last_asc_hd_desc_ts [OF False]
      by (cases "order_by ts_id_desc rows") (simp_all add: getStats_def getDb_def)
  qed
  have stats: "getStats ?db = Inr (projr (getStats ?db))"
    by (simp add: getStats_def getDb_def)
  have ends: "\<exists>stats. getStats ?db = Inr stats
                 \<and> first_message_ts stats =
                     (if rows = [] then None else Some (r_ts (hd ?all)))
                 \<and> last_message_ts stats =
                     (if rows = [] then None else Some (r_ts (last ?all)))"
    using stats first last by blast
  show ?thesis
    by (rule exI [of _ ?page], intro conjI)
      (rule list refl mset_order_by sorted_all sorted_wrt_stored [OF sorted_page] ends)+
qed

text \<open>The theorem on two rows with the same \<open>ts\<close>, stored in descending key order.\<close>

theorem listMessages_sorted_and_stats_ends_witness:
  "sql_integer (Finite 50) = Some 50 \<and> sql_integer (Finite 0) = Some 0
   \<and> (\<exists>data. snd (listMessages
            (Some \<lparr>db_rows =
               [\<lparr>r_message_id = ''m2'', r_from_msisdn = ''+100'', r_to_msisdn = ''+200'',
                 r_ts = ''2025-01-15T10:00:00Z'', r_text = None, r_created_at = ''c2''\<rparr>,
                \<lparr>r_message_id = ''m1'', r_from_msisdn = ''+100'', r_to_msisdn = ''+200'',
                 r_ts = ''2025-01-15T10:00:00Z'', r_text = Some ''hi'', r_created_at = ''c1''\<rparr>],
               db_fault = None\<rparr>)
            \<lparr>f_limit = Finite 50, f_offset = Finite 0, f_from = None, f_since = None,
             f_q = None\<rparr>) = Inr (data, 2)
          \<and> sorted_wrt (\<lambda>a b. s_ts a < s_ts b
                               \<or> (s_ts a = s_ts b \<and> s_message_id a \<le> s_message_id b)) data)"
proof -
  have l: "sql_integer (Finite 50) = Some 50" and k: "sql_integer (Finite 0) = Some 0"
    by (simp_all add: sql_integer_def)
  show ?thesis
    using l k listMessages_sorted_and_stats_ends
      [of "\<lparr>f_limit = Finite 50, f_offset = Finite 0, f_from = None, f_since = None,
             f_q = None\<rparr>" 50 0
          "[\<lparr>r_message_id = ''m2'', r_from_msisdn = ''+100'', r_to_msisdn = ''+200'',
             r_ts = ''2025-01-15T10:00:00Z'', r_text = None, r_created_at = ''c2''\<rparr>,
            \<lparr>r_message_id = ''m1'', r_from_msisdn = ''+100'', r_to_msisdn = ''+200'',
             r_ts = ''2025-01-15T10:00:00Z'', r_text = Some ''hi'', r_created_at = ''c1''\<rparr>]"]
    by auto
qed

lemma insertMessage_created:
  assumes "insertMessage (Some database) now m = Inr (res, db')" and "created res"
  shows "m_message_id m \<notin> r_message_id ` set (db_rows database)
         \<and> db' = Some (database\<lparr>db_rows :=
                    db_rows database
                    @ [\<lparr>r_message_id = m_message_id m, r_from_msisdn = m_from m,
                        r_to_msisdn = m_to m, r_ts = m_ts m, r_text = m_text m,
                        r_created_at = now\<rparr>]\<rparr>)"
  using assms
  by (auto simp: insertMessage_def getDb_def sql_insert_def
      split: option.splits if_splits)

lemma sql_where_subset:
  assumes "sql_where clauses rows = Inr matching"
  shows "set matching \<subseteq> set rows"
  using assms
proof (induction rows arbitrary: matching)
  case Nil
  then show ?case by simp
next
  case (Cons r rows)
  then show ?case
    by (auto split: sum.splits if_splits)
qed

lemma sql_select_rows:
  assumes "sql_select database clauses limit_v offset_v = Inr rawRows"
  shows "\<exists>l k matching. rawRows = sql_limit l (sql_offset k (order_by ts_id_asc matching))
           \<and> set matching \<subseteq> set (db_rows database)"
proof -
  from assms obtain l k where
    sel: "(case (if l = 0 then Inr [] else sql_where clauses (db_rows database)) of
            Inl e \<Rightarrow> Inl e
          | Inr matching \<Rightarrow> Inr (sql_limit l (sql_offset k (order_by ts_id_asc matching))))
          = Inr rawRows"
    by (auto simp: sql_select_def split: option.splits)
  then obtain matching where
    m: "(if l = 0 then Inr [] else sql_where clauses (db_rows database)) = Inr matching"
    and raw: "rawRows = sql_limit l (sql_offset k (order_by ts_id_asc matching))"
    by (auto split: sum.splits)
  have "set matching \<subseteq> set (db_rows database)"
  proof (cases "l = 0")
    case True
    with m show ?thesis by simp
  next
    case False
    with m show ?thesis by (simp add: sql_where_subset)
  qed
  with raw show ?thesis by blast
qed

lemma set_sql_limit_offset: "set (sql_limit l (sql_offset k xs)) \<subseteq> set xs"
  by (auto simp: sql_limit_def sql_offset_def dest: in_set_takeD in_set_dropD)

lemma listMessages_data_rows:
  assumes "snd (listMessages (Some database) f) = Inr (data, cnt)" and "x \<in> set data"
  shows "\<exists>r \<in> set (db_rows database). x = stored_of_row r"
proof -
  from assms(1) obtain rawRows where
    sel: "sql_select database (where_clauses f) (f_limit f) (f_offset f) = Inr rawRows"
    and data: "data = map stored_of_row rawRows"
    by (auto simp: listMessages_def getDb_def split: sum.splits)
  from sql_select_rows [OF sel] obtain l k matching where
    raw: "rawRows = sql_limit l (sql_offset k (order_by ts_id_asc matching))"
    and sub: "set matching \<subseteq> set (db_rows database)"
    by blast
  from assms(2) obtain r where r: "r \<in> set rawRows" and x: "x = stored_of_row r"
    unfolding data by auto
  from r have "r \<in> set (order_by ts_id_asc matching)"
    unfolding raw by (rule subsetD [OF set_sql_limit_offset])
  then have "r \<in> set (db_rows database)"
    using sub by (auto simp: set_order_by)
  with x show ?thesis by blast
qed

text \<open>
  Claim C9. After \<open>insertMessage(m)\<close> has returned \<open>created = true\<close>, every row with
  \<open>m\<close>'s \<open>message_id\<close> on a page that \<open>listMessages\<close> returns carries exactly the
  submitted \<open>message_id\<close>, \<open>from\<close>, \<open>to\<close>, \<open>ts\<close> and \<open>text\<close> (null when \<open>m\<close> had
  none), and as \<open>created_at\<close> the time of the insert.
\<close>

theorem insert_then_list_roundtrip:
  assumes ins: "insertMessage (Some database) now m = Inr (res, db')"
    and created: "created res"
    and list: "snd (listMessages db' f) = Inr (data, cnt)"
    and row: "x \<in> set data"
    and key: "s_message_id x = m_message_id m"
  shows "x = \<lparr>s_message_id = m_message_id m, s_from = m_from m, s_to = m_to m,
              s_ts = m_ts m, s_text = m_text m, s_created_at = now\<rparr>"
proof -
  let ?new = "\<lparr>r_message_id = m_message_id m, r_from_msisdn = m_from m,
               r_to_msisdn = m_to m, r_ts = m_ts m, r_text = m_text m,
               r_created_at = now\<rparr>"
  have fresh: "m_message_id m \<notin> r_message_id ` set (db_rows database)"
    and db': "db' = Some (database\<lparr>db_rows := db_rows database @ [?new]\<rparr>)"
    using insertMessage_created [OF ins created] by simp_all
  from listMessages_data_rows [OF list [unfolded db'] row] obtain r where
    r: "r \<in> set (db_rows database @ [?new])" and x: "x = stored_of_row r"
    by auto
  have "r_message_id r = m_message_id m"
    using key x by (simp add: stored_of_row_def)
  then have "r \<notin> set (db_rows database)"
    using fresh by force
  then have "r = ?new"
    using r by simp
  then show ?thesis
    using x by (simp add: stored_of_row_def)
qed

text \<open>The theorem for a message without text on an empty store: the page holds the
  row.\<close>

theorem insert_then_list_roundtrip_witness:
  "insertMessage (Some \<lparr>db_rows = [], db_fault = None\<rparr>) ''2025-01-15T10:00:01Z''
     \<lparr>m_message_id = ''m1'', m_from = ''+100'', m_to = ''+200'',
      m_ts = ''2025-01-15T10:00:00Z'', m_text = None\<rparr> =
   Inr (\<lparr>created = True, dup = False\<rparr>,
        Some \<lparr>db_rows =
                [\<lparr>r_message_id = ''m1'', r_from_msisdn = ''+100'', r_to_msisdn = ''+200'',
                  r_ts = ''2025-01-15T10:00:00Z'', r_text = None,
                  r_created_at = ''2025-01-15T10:00:01Z''\<rparr>],
              db_fault = None\<rparr>)
   \<and> snd (listMessages
        (Some \<lparr>db_rows =
                [\<lparr>r_message_id = ''m1'', r_from_msisdn = ''+100'', r_to_msisdn = ''+200'',
                  r_ts = ''2025-01-15T10:00:00Z'', r_text = None,
                  r_created_at = ''2025-01-15T10:00:01Z''\<rparr>],
              db_fault = None\<rparr>)
        \<lparr>f_limit = Finite 50, f_offset = Finite 0, f_from = None, f_since = None,
         f_q = None\<rparr>) =
   Inr ([\<lparr>s_message_id = ''m1'', s_from = ''+100'', s_to = ''+200'',
          s_ts = ''2025-01-15T10:00:00Z'', s_text = None,
          s_created_at = ''2025-01-15T10:00:01Z''\<rparr>], 1)"
proof -
  let ?m = "\<lparr>m_message_id = ''m1'', m_from = ''+100'', m_to = ''+200'',
             m_ts = ''2025-01-15T10:00:00Z'', m_text = None\<rparr>"
  let ?db = "Some \<lparr>db_rows =
                [\<lparr>r_message_id = ''m1'', r_from_msisdn = ''+100'', r_to_msisdn = ''+200'',
                  r_ts = ''2025-01-15T10:00:00Z'', r_text = None,
                  r_created_at = ''2025-01-15T10:00:01Z''\<rparr>],
              db_fault = None\<rparr>"
  let ?f = "\<lparr>f_limit = Finite 50, f_offset = Finite 0, f_from = None, f_since = None,
             f_q = None\<rparr>"
  let ?x = "stored_of_row \<lparr>r_message_id = ''m1'', r_from_msisdn = ''+100'',
               r_to_msisdn = ''+200'', r_ts = ''2025-01-15T10:00:00Z'', r_text = None,
               r_created_at = ''2025-01-15T10:00:01Z''\<rparr>"
  have ins: "insertMessage (Some \<lparr>db_rows = [], db_fault = None\<rparr>) ''2025-01-15T10:00:01Z'' ?m
               = Inr (\<lparr>created = True, dup = False\<rparr>, ?db)"
    by (simp add: insertMessage_def getDb_def sql_insert_def)
  have list: "snd (listMessages ?db ?f) = Inr ([?x], 1)"
    by code_simp
  have "?x = \<lparr>s_message_id = ''m1'', s_from = ''+100'', s_to = ''+200'',
          s_ts = ''2025-01-15T10:00:00Z'', s_text = None,
          s_created_at = ''2025-01-15T10:00:01Z''\<rparr>"
    using insert_then_list_roundtrip [OF ins _ list, of ?x]
    by (simp add: stored_of_row_def)
  with ins list show ?thesis by simp
qed










section \<open>Signature verification\<close>

lemma xor_int_eq_0_iff: "(a::int) XOR b = 0 \<longleftrightarrow> a = b"
  by (auto simp: bit_eq_iff bit_xor_iff)

lemma fold_or_eq_0_iff:
  "fold (\<lambda>i (acc::int). acc OR g i) ixs acc0 = 0 \<longleftrightarrow> acc0 = 0 \<and> (\<forall>i\<in>set ixs. g i = 0)"
  by (induction ixs arbitrary: acc0) (auto simp: or_eq_0_iff)

lemma charCodeAt_eq_iff:
  assumes "i < length a" and "i < length b"
  shows "charCodeAt a i = charCodeAt b i \<longleftrightarrow> a ! i = b ! i"
  using assms by (simp add: charCodeAt_def)

lemma timingSafeEqualHex_iff: "timingSafeEqualHex a b \<longleftrightarrow> a = b"
proof (cases "length a = length b")
  case False
  then show ?thesis by (auto simp: timingSafeEqualHex_def)
next
  case True
  have "timingSafeEqualHex a b \<longleftrightarrow> (\<forall>i<length a. charCodeAt a i XOR charCodeAt b i = 0)"
    using True by (simp add: timingSafeEqualHex_def fold_or_eq_0_iff Ball_def)
  also have "\<dots> \<longleftrightarrow> (\<forall>i<length a. a ! i = b ! i)"
    using True by (simp add: xor_int_eq_0_iff charCodeAt_eq_iff)
  also have "\<dots> \<longleftrightarrow> a = b"
    using True by (auto intro: nth_equalityI)
  finally show ?thesis .
qed

text \<open>
  Claim C4. \<open>isValidSignature\<close> is a total function to the booleans. It is false
  whenever the secret or the provided signature is absent (null or the empty string, the
  values \<open>!secret || !provided\<close> rejects); otherwise it is true exactly when the
  provided string equals the hex HMAC-SHA256 of the raw body under the secret. The
  comparison is false on unequal lengths, and on equal lengths it is true exactly when the
  bitwise OR of the XORs of the character codes is zero, which is the case exactly when
  the two strings are equal.
\<close>

theorem isValidSignature_correct:
  "(\<not> truthy secret \<or> \<not> truthy provided \<longrightarrow> isValidSignature rt provided secret rawBody = False)
   \<and> (secret = Some sec \<and> sec \<noteq> [] \<and> provided = Some prov \<and> prov \<noteq> []
        \<longrightarrow> isValidSignature rt provided secret rawBody
              = (prov = js_hmac_sha256_hex rt sec rawBody))
   \<and> (length a \<noteq> length b \<longrightarrow> timingSafeEqualHex a b = False)
   \<and> (length a = length b
        \<longrightarrow> timingSafeEqualHex a b
              = (fold (\<lambda>i mismatch. mismatch OR (charCodeAt a i XOR charCodeAt b i))
                   [0 ..< length a] 0 = 0))
   \<and> timingSafeEqualHex a b = (a = b)"
proof (intro conjI impI)
  assume "\<not> truthy secret \<or> \<not> truthy provided"
  then show "isValidSignature rt provided secret rawBody = False"
    by (auto simp: truthy_def isValidSignature_def split: option.splits)
next
  assume "secret = Some sec \<and> sec \<noteq> [] \<and> provided = Some prov \<and> prov \<noteq> []"
  then show "isValidSignature rt provided secret rawBody
              = (prov = js_hmac_sha256_hex rt sec rawBody)"
    by (auto simp: isValidSignature_def computeHmac_def timingSafeEqualHex_iff)
next
  assume "length a \<noteq> length b"
  then show "timingSafeEqualHex a b = False"
    by (simp add: timingSafeEqualHex_def)
next
  assume "length a = length b"
  then show "timingSafeEqualHex a b
              = (fold (\<lambda>i mismatch. mismatch OR (charCodeAt a i XOR charCodeAt b i))
                   [0 ..< length a] 0 = 0)"
    by (simp add: timingSafeEqualHex_def)
next
  show "timingSafeEqualHex a b = (a = b)"
    by (rule timingSafeEqualHex_iff)
qed

text \<open>The theorem at a matching signature, and at a missing one with a shorter
  candidate string.\<close>

theorem isValidSignature_correct_witness:
  "isValidSignature
     \<lparr>js_Number = decimal_Number, js_JSON_parse = (\<lambda>s. None),
      js_hmac_sha256_hex = (\<lambda>key body. ''9f3a''), js_add = (+),
      js_number_text = (\<lambda>x. [])\<rparr>
     (Some ''9f3a'') (Some ''secret'') ''abc'' = True
   \<and> timingSafeEqualHex ''9f3a'' ''9f3a'' = True
   \<and> isValidSignature
       \<lparr>js_Number = decimal_Number, js_JSON_parse = (\<lambda>s. None),
        js_hmac_sha256_hex = (\<lambda>key body. ''9f3a''), js_add = (+),
      js_number_text = (\<lambda>x. [])\<rparr>
       None (Some ''secret'') ''abc'' = False
   \<and> timingSafeEqualHex ''9f3a'' ''9f3'' = False"
  using isValidSignature_correct
      [of "Some ''secret''" "Some ''9f3a''"
          "\<lparr>js_Number = decimal_Number, js_JSON_parse = (\<lambda>s. None),
            js_hmac_sha256_hex = (\<lambda>key body. ''9f3a''), js_add = (+),
      js_number_text = (\<lambda>x. [])\<rparr>"
          "''abc''" "''secret''" "''9f3a''" "''9f3a''" "''9f3a''"]
    isValidSignature_correct
      [of "Some ''secret''" None
          "\<lparr>js_Number = decimal_Number, js_JSON_parse = (\<lambda>s. None),
            js_hmac_sha256_hex = (\<lambda>key body. ''9f3a''), js_add = (+),
      js_number_text = (\<lambda>x. [])\<rparr>"
          "''abc''" "''secret''" "''9f3a''" "''9f3a''" "''9f3''"]
  by (simp add: truthy_def)

section \<open>The latency histogram\<close>

lemma recordLatency_buckets:
  assumes "latencyBuckets m = [(Bound 100, a), (Bound 500, b), (Infinity, c)]"
  shows "latencyBuckets (recordLatency rt m ms) =
           [(Bound 100, a + (if ms \<le> 100 then 1 else 0)),
            (Bound 500, b + (if \<not> ms \<le> 100 \<and> ms \<le> 500 then 1 else 0)),
            (Infinity, c + (if \<not> ms \<le> 500 then 1 else 0))]"
  using assms by (auto simp: recordLatency_def increment_def)

lemma recordLatency_others:
  "latencyCount (recordLatency rt m ms) = latencyCount m + 1"
  "latencyTotal (recordLatency rt m ms) = js_add rt (latencyTotal m) ms"
  "httpRequests (recordLatency rt m ms) = httpRequests m"
  "webhookResults (recordLatency rt m ms) = webhookResults m"
  by (simp_all add: recordLatency_def)

lemma foldl_recordLatency:
  assumes "latencyBuckets m = [(Bound 100, a), (Bound 500, b), (Infinity, c)]"
  shows "latencyBuckets (foldl (recordLatency rt) m obs) =
           [(Bound 100, a + length (filter (\<lambda>ms. ms \<le> 100) obs)),
            (Bound 500, b + length (filter (\<lambda>ms. \<not> ms \<le> 100 \<and> ms \<le> 500) obs)),
            (Infinity, c + length (filter (\<lambda>ms. \<not> ms \<le> 500) obs))]
       \<and> latencyCount (foldl (recordLatency rt) m obs) = latencyCount m + length obs
       \<and> latencyTotal (foldl (recordLatency rt) m obs) = foldl (js_add rt) (latencyTotal m) obs
       \<and> httpRequests (foldl (recordLatency rt) m obs) = httpRequests m
       \<and> webhookResults (foldl (recordLatency rt) m obs) = webhookResults m"
  using assms
proof (induction obs arbitrary: m a b c)
  case Nil
  then show ?case by simp
next
  case (Cons ms obs)
  show ?case
    using Cons.IH [OF recordLatency_buckets [OF Cons.prems, of rt ms]]
    by (simp add: recordLatency_others)
qed

lemma join_terminated:
  assumes "ls \<noteq> []"
  shows "join sep ls @ sep = concat (map (\<lambda>l. l @ sep) ls)"
  using assms by (induction sep ls rule: join.induct) simp_all

lemma count_le_100_500:
  fixes obs :: "rat list"
  shows "length (filter (\<lambda>ms. ms \<le> 100) obs)
           + length (filter (\<lambda>ms. \<not> ms \<le> 100 \<and> ms \<le> 500) obs)
         = length (filter (\<lambda>ms. ms \<le> 500) obs)"
  by (induction obs) auto

lemma count_le_500_all:
  fixes obs :: "rat list"
  shows "length (filter (\<lambda>ms. ms \<le> 500) obs) + length (filter (\<lambda>ms. \<not> ms \<le> 500) obs)
         = length obs"
  by (induction obs) auto

lemma sorted_bounds:
  "order_by (\<lambda>a b. \<not> 0 < bucket_cmp a b) [Bound 100, Bound 500, Infinity]
     = [Bound 100, Bound 500, Infinity]"
  by (simp add: order_by_def bucket_cmp_def)

lemma bucket_labels:
  "bucket_label (Bound 100) = ''100''" "bucket_label (Bound 500) = ''500''"
  "bucket_label Infinity = ''+Inf''"
  by (simp_all add: bucket_label_def show_nat.simps digit_char_def)

text \<open>
  Claim C7. After any sequence of \<open>recordLatency\<close> observations, whatever the other
  counters hold, the text of \<open>renderMetrics\<close> is the counter lines followed by the bucket
  lines for \<open>100\<close>, \<open>500\<close> and \<open>+Inf\<close> in this order, the \<open>request_latency_ms_count\<close>
  line and the \<open>request_latency_ms_sum\<close> line, each line ended by a newline. The bucket
  lines print the numbers of observations that are at most 100, at most 500, and all of
  them; these numbers do not decrease, and the \<open>+Inf\<close> number is the one printed by
  \<open>request_latency_ms_count\<close>. The sum line prints the observations added up one by one
  with the addition of JavaScript numbers.
\<close>

theorem renderMetrics_histogram:
  \<open>renderMetrics rt
      (foldl (recordLatency rt)
         (initial_metrics\<lparr>httpRequests := h, webhookResults := w\<rparr>) obs) =
     concat (map (\<lambda>l. l @ [CHR 0x0A])
       (map http_line h @ map webhook_line w
        @ [''request_latency_ms_bucket{le="100"} ''
             @ show_nat (length (filter (\<lambda>ms. ms \<le> 100) obs)),
           ''request_latency_ms_bucket{le="500"} ''
             @ show_nat (length (filter (\<lambda>ms. ms \<le> 500) obs)),
           ''request_latency_ms_bucket{le="+Inf"} '' @ show_nat (length obs),
           ''request_latency_ms_count '' @ show_nat (length obs),
           ''request_latency_ms_sum '' @ js_number_text rt (foldl (js_add rt) 0 obs)]))
   \<and> length (filter (\<lambda>ms. ms \<le> 100) obs) \<le> length (filter (\<lambda>ms. ms \<le> 500) obs)
   \<and> length (filter (\<lambda>ms. ms \<le> 500) obs) \<le> length obs\<close>
proof -
  let ?start = "initial_metrics\<lparr>httpRequests := h, webhookResults := w\<rparr>"
  let ?m = "foldl (recordLatency rt) ?start obs"
  let ?c1 = "length (filter (\<lambda>ms. ms \<le> 100) obs)"
  let ?c2 = "length (filter (\<lambda>ms. \<not> ms \<le> 100 \<and> ms \<le> 500) obs)"
  let ?c3 = "length (filter (\<lambda>ms. \<not> ms \<le> 500) obs)"
  have init: "latencyBuckets ?start = [(Bound 100, 0), (Bound 500, 0), (Infinity, 0)]"
    by (simp add: initial_metrics_def)
  note run = foldl_recordLatency [OF init, of rt obs]
  have buckets: "latencyBuckets ?m = [(Bound 100, ?c1), (Bound 500, ?c2), (Infinity, ?c3)]"
    using run by simp
  have count: "latencyCount ?m = length obs"
    and total: "latencyTotal ?m = foldl (js_add rt) 0 obs"
    and http: "httpRequests ?m = h" and hook: "webhookResults ?m = w"
    using run by (simp_all add: initial_metrics_def)
  have c12: "?c1 + ?c2 = length (filter (\<lambda>ms. ms \<le> 500) obs)"
    by (rule count_le_100_500)
  have c123: "?c1 + ?c2 + ?c3 = length obs"
    using count_le_500_all [of obs] c12 by simp
  have lines: "bucket_lines (latencyBuckets ?m) 0 [Bound 100, Bound 500, Infinity] =
                 [bucket_line (Bound 100) ?c1, bucket_line (Bound 500) (?c1 + ?c2),
                  bucket_line Infinity (?c1 + ?c2 + ?c3)]"
    unfolding buckets by (simp add: Let_def)
  have l1: \<open>bucket_line (Bound 100) ?c1 =
      ''request_latency_ms_bucket{le="100"} ''
        @ show_nat (length (filter (\<lambda>ms. ms \<le> 100) obs))\<close>
    by (simp add: bucket_line_def bucket_labels)
  have l2: \<open>bucket_line (Bound 500) (?c1 + ?c2) =
      ''request_latency_ms_bucket{le="500"} ''
        @ show_nat (length (filter (\<lambda>ms. ms \<le> 500) obs))\<close>
    by (simp add: bucket_line_def bucket_labels c12)
  have l3: \<open>bucket_line Infinity (?c1 + ?c2 + ?c3) =
      ''request_latency_ms_bucket{le="+Inf"} '' @ show_nat (length obs)\<close>
    by (simp add: bucket_line_def bucket_labels c123)
  let ?tail = \<open>[''request_latency_ms_bucket{le="100"} ''
          @ show_nat (length (filter (\<lambda>ms. ms \<le> 100) obs)),
        ''request_latency_ms_bucket{le="500"} ''
          @ show_nat (length (filter (\<lambda>ms. ms \<le> 500) obs)),
        ''request_latency_ms_bucket{le="+Inf"} '' @ show_nat (length obs),
        ''request_latency_ms_count '' @ show_nat (length obs),
        ''request_latency_ms_sum '' @ js_number_text rt (foldl (js_add rt) 0 obs)]\<close>
  have "metrics_lines rt ?m =
          map http_line h @ map webhook_line w
          @ [bucket_line (Bound 100) ?c1, bucket_line (Bound 500) (?c1 + ?c2),
             bucket_line Infinity (?c1 + ?c2 + ?c3),
             ''request_latency_ms_count '' @ show_nat (length obs),
             ''request_latency_ms_sum '' @ js_number_text rt (foldl (js_add rt) 0 obs)]"
    unfolding metrics_lines_def http hook count total
    using lines sorted_bounds by (simp add: buckets)
  then have first: "metrics_lines rt ?m = map http_line h @ map webhook_line w @ ?tail"
    by (simp only: l1 l2 l3)
  have nonempty: "map http_line h @ map webhook_line w @ ?tail \<noteq> []"
    by simp
  have rendered: "renderMetrics rt ?m =
                concat (map (\<lambda>l. l @ [CHR 0x0A]) (map http_line h @ map webhook_line w @ ?tail))"
    unfolding renderMetrics_def first by (rule join_terminated [OF nonempty])
  have le12: "?c1 \<le> length (filter (\<lambda>ms. ms \<le> 500) obs)"
    using c12 by linarith
  have le23: "length (filter (\<lambda>ms. ms \<le> 500) obs) \<le> length obs"
    by (rule length_filter_le)
  show ?thesis
    by (intro conjI) (rule rendered le12 le23)+
qed

section \<open>What the webhook counter and the text filter do\<close>

lemma webhook_handler_metrics:
  "st_metrics (fst (snd (webhook_handler rt config env req st))) =
     recordLatency rt
       (recordHttpRequest (st_metrics (snd (snd (webhook_try rt config env req st))))
          ''/webhook'' (v_status (fst (snd (webhook_try rt config env req st)))))
       (e_latency env)"
  by (simp add: webhook_handler_def split: prod.splits)

lemma webhookResults_finalize:
  "webhookResults (recordLatency rt (recordHttpRequest m path status) ms) = webhookResults m"
  by (simp add: recordLatency_def recordHttpRequest_def)

lemma webhook_try_counter:
  "webhookResults (st_metrics (snd (snd (webhook_try rt config env req st)))) =
     (if v_status (fst (snd (webhook_try rt config env req st))) = 200
      then increment (v_result (fst (snd (webhook_try rt config env req st))))
             (webhookResults (st_metrics st))
      else webhookResults (st_metrics st))"
  by (simp add: webhook_try_def recordWebhookResult_def Let_def
      split: option.splits sum.splits prod.splits)

text \<open>
  Claim C2, as the code behaves. The handler of \<open>POST /webhook\<close> increments
  \<open>webhook_requests_total\<close> once, under the result tag, exactly when it answers 200
  (\<open>created\<close> or \<open>duplicate\<close>); on every other outcome the counter is left as it was.
  Without a configured secret the answer is 503, the result tag is \<open>secret_missing\<close>,
  \<open>http_requests_total\<close> is incremented and \<open>webhook_requests_total\<close> is not.
\<close>

theorem webhook_failure_not_counted:
  "webhookResults (st_metrics (fst (snd (webhook_handler rt config env req st)))) =
     (if v_status (fst (snd (webhook_try rt config env req st))) = 200
      then increment (v_result (fst (snd (webhook_try rt config env req st))))
             (webhookResults (st_metrics st))
      else webhookResults (st_metrics st))
   \<and> fst (webhook_handler rt (config\<lparr>webhookSecret := None\<rparr>) env req st)
       = \<lparr>res_status = 503, res_body = Detail ''service not ready''\<rparr>
   \<and> v_result (fst (snd (webhook_try rt (config\<lparr>webhookSecret := None\<rparr>) env req st)))
       = ''secret_missing''
   \<and> webhookResults (st_metrics (fst (snd
         (webhook_handler rt (config\<lparr>webhookSecret := None\<rparr>) env req st))))
       = webhookResults (st_metrics st)
   \<and> httpRequests (st_metrics (fst (snd
         (webhook_handler rt (config\<lparr>webhookSecret := None\<rparr>) env req st))))
       = increment ''/webhook|503'' (httpRequests (st_metrics st))"
proof (intro conjI)
  show "webhookResults (st_metrics (fst (snd (webhook_handler rt config env req st)))) =
     (if v_status (fst (snd (webhook_try rt config env req st))) = 200
      then increment (v_result (fst (snd (webhook_try rt config env req st))))
             (webhookResults (st_metrics st))
      else webhookResults (st_metrics st))"
    by (simp only: webhook_handler_metrics webhookResults_finalize webhook_try_counter)
qed (simp_all add: webhook_handler_def webhook_try_def truthy_def
      recordLatency_def recordHttpRequest_def show_nat.simps digit_char_def)

text \<open>
  The clause on \<open>q\<close> against the specification's substring test: a row without text
  never passes it, and for a query without the characters \<open>%\<close> and \<open>_\<close> the rows that
  pass are exactly those whose text contains the query, ASCII case ignored.
\<close>

lemma sql_like_percent: "sql_like ''%'' t"
  by (induction t) simp_all

lemma sql_like_literal_prefix:
  assumes "CHR ''%'' \<notin> set p" and "CHR ''_'' \<notin> set p"
  shows "sql_like (p @ ''%'') t
           = (length p \<le> length t \<and> map ascii_lower (take (length p) t) = map ascii_lower p)"
  using assms
proof (induction p arbitrary: t)
  case Nil
  then show ?case by (simp add: sql_like_percent)
next
  case (Cons a p)
  then show ?case by (cases t) auto
qed

lemma sql_like_percent_front:
  "sql_like (CHR ''%'' # rest) t = (\<exists>k\<le>length t. sql_like rest (drop k t))"
proof (induction t)
  case Nil
  show ?case by (cases rest) simp_all
next
  case (Cons c cs)
  have "(\<exists>k\<le>length (c # cs). sql_like rest (drop k (c # cs)))
          = (sql_like rest (c # cs) \<or> (\<exists>k\<le>length cs. sql_like rest (drop k cs)))"
  proof
    assume "\<exists>k\<le>length (c # cs). sql_like rest (drop k (c # cs))"
    then obtain k where k: "k \<le> length (c # cs)" "sql_like rest (drop k (c # cs))"
      by blast
    show "sql_like rest (c # cs) \<or> (\<exists>k\<le>length cs. sql_like rest (drop k cs))"
    proof (cases k)
      case 0
      with k show ?thesis by simp
    next
      case (Suc j)
      with k have "j \<le> length cs" "sql_like rest (drop j cs)" by simp_all
      then show ?thesis by blast
    qed
  next
    assume "sql_like rest (c # cs) \<or> (\<exists>k\<le>length cs. sql_like rest (drop k cs))"
    then show "\<exists>k\<le>length (c # cs). sql_like rest (drop k (c # cs))"
    proof
      assume "sql_like rest (c # cs)"
      then have "0 \<le> length (c # cs) \<and> sql_like rest (drop 0 (c # cs))" by simp
      then show ?thesis by blast
    next
      assume "\<exists>k\<le>length cs. sql_like rest (drop k cs)"
      then obtain k where "k \<le> length cs" "sql_like rest (drop k cs)" by blast
      then have "Suc k \<le> length (c # cs) \<and> sql_like rest (drop (Suc k) (c # cs))" by simp
      then show ?thesis by blast
    qed
  qed
  with Cons show ?case by simp
qed

lemma str_includes_drop:
  "str_includes hay needle = (\<exists>k\<le>length hay. starts_with (drop k hay) needle)"
proof (induction hay)
  case Nil
  show ?case by (auto simp: starts_with_def)
next
  case (Cons c cs)
  have "(\<exists>k\<le>length (c # cs). starts_with (drop k (c # cs)) needle)
          = (starts_with (c # cs) needle \<or> (\<exists>k\<le>length cs. starts_with (drop k cs) needle))"
  proof
    assume "\<exists>k\<le>length (c # cs). starts_with (drop k (c # cs)) needle"
    then obtain k where k: "k \<le> length (c # cs)" "starts_with (drop k (c # cs)) needle"
      by blast
    show "starts_with (c # cs) needle \<or> (\<exists>k\<le>length cs. starts_with (drop k cs) needle)"
    proof (cases k)
      case 0
      with k show ?thesis by simp
    next
      case (Suc j)
      with k have "j \<le> length cs" "starts_with (drop j cs) needle" by simp_all
      then show ?thesis by blast
    qed
  next
    assume "starts_with (c # cs) needle \<or> (\<exists>k\<le>length cs. starts_with (drop k cs) needle)"
    then show "\<exists>k\<le>length (c # cs). starts_with (drop k (c # cs)) needle"
    proof
      assume "starts_with (c # cs) needle"
      then have "0 \<le> length (c # cs) \<and> starts_with (drop 0 (c # cs)) needle" by simp
      then show ?thesis by blast
    next
      assume "\<exists>k\<le>length cs. starts_with (drop k cs) needle"
      then obtain k where "k \<le> length cs" "starts_with (drop k cs) needle" by blast
      then have "Suc k \<le> length (c # cs) \<and> starts_with (drop (Suc k) (c # cs)) needle"
        by simp
      then show ?thesis by blast
    qed
  qed
  with Cons show ?case by simp
qed

lemma ascii_lower_idem: "ascii_lower (ascii_lower c) = ascii_lower c"
  by (simp add: ascii_lower_def)

lemma ascii_lower_wildcard:
  "ascii_lower c = CHR ''%'' \<longleftrightarrow> c = CHR ''%''"
  "ascii_lower c = CHR ''_'' \<longleftrightarrow> c = CHR ''_''"
  by (auto simp: ascii_lower_def)

lemma sql_lower_idem: "map ascii_lower (sql_lower s) = sql_lower s"
  by (simp add: sql_lower_def ascii_lower_idem)

lemma sql_lower_wildcard_free:
  assumes "CHR ''%'' \<notin> set q" and "CHR ''_'' \<notin> set q"
  shows "CHR ''%'' \<notin> set (sql_lower q)" and "CHR ''_'' \<notin> set (sql_lower q)"
proof -
  show "CHR ''%'' \<notin> set (sql_lower q)"
  proof
    assume "CHR ''%'' \<in> set (sql_lower q)"
    then obtain c where "c \<in> set q" and "ascii_lower c = CHR ''%''"
      by (auto simp: sql_lower_def)
    then show False
      using assms(1) by (simp add: ascii_lower_wildcard)
  qed
  show "CHR ''_'' \<notin> set (sql_lower q)"
  proof
    assume "CHR ''_'' \<in> set (sql_lower q)"
    then obtain c where "c \<in> set q" and "ascii_lower c = CHR ''_''"
      by (auto simp: sql_lower_def)
    then show False
      using assms(2) by (simp add: ascii_lower_wildcard)
  qed
qed

lemma literal_prefix_lowered:
  "(length (sql_lower q) \<le> length (drop k (sql_lower t))
      \<and> map ascii_lower (take (length (sql_lower q)) (drop k (sql_lower t)))
          = map ascii_lower (sql_lower q))
   = starts_with (drop k (sql_lower t)) (sql_lower q)"
proof -
  have "map ascii_lower (take (length (sql_lower q)) (drop k (sql_lower t)))
          = take (length (sql_lower q)) (drop k (sql_lower t))"
    by (simp add: sql_lower_def take_map drop_map ascii_lower_idem)
  moreover have "take (length (sql_lower q)) (drop k (sql_lower t)) = sql_lower q
                   \<Longrightarrow> length (sql_lower q) \<le> length (drop k (sql_lower t))"
    by (drule arg_cong [where f = length]) simp
  ultimately show ?thesis
    by (auto simp: starts_with_def sql_lower_idem)
qed

lemma q_clause_without_wildcards:
  assumes "CHR ''%'' \<notin> set q" and "CHR ''_'' \<notin> set q"
  shows "sql_like (''%'' @ sql_lower q @ ''%'') (sql_lower t)
           = str_includes (sql_lower t) (sql_lower q)"
proof -
  have "sql_like (''%'' @ sql_lower q @ ''%'') (sql_lower t)
          = (\<exists>k\<le>length (sql_lower t). sql_like (sql_lower q @ ''%'') (drop k (sql_lower t)))"
    using sql_like_percent_front [of "sql_lower q @ ''%''" "sql_lower t"] by simp
  also have "\<dots> = (\<exists>k\<le>length (sql_lower t). starts_with (drop k (sql_lower t)) (sql_lower q))"
    by (simp only: sql_like_literal_prefix [OF sql_lower_wildcard_free [OF assms]]
        literal_prefix_lowered)
  also have "\<dots> = str_includes (sql_lower t) (sql_lower q)"
    by (simp only: str_includes_drop)
  finally show ?thesis .
qed

lemma c_string_id:
  assumes "CHR 0x00 \<notin> set s"
  shows "c_string s = s"
  using assms by (induction s) (auto simp: c_string_def)

lemma ascii_lower_nul: "ascii_lower c = CHR 0x00 \<longleftrightarrow> c = CHR 0x00"
  by (auto simp: ascii_lower_def)

lemma sql_lower_nul_free:
  assumes "CHR 0x00 \<notin> set s"
  shows "CHR 0x00 \<notin> set (sql_lower s)"
proof
  assume "CHR 0x00 \<in> set (sql_lower s)"
  then obtain c where "c \<in> set s" and "ascii_lower c = CHR 0x00"
    by (auto simp: sql_lower_def)
  then show False
    using assms by (simp add: ascii_lower_nul)
qed

lemma length_sql_lower: "length (sql_lower s) = length s"
  by (simp add: sql_lower_def)

lemma eval_where_single:
  "eval_where [c] r = (case c r of Inl e \<Rightarrow> Inl e | Inr b \<Rightarrow> Inr b)"
  by (simp split: sum.splits)

lemma sql_where_total:
  assumes "\<And>r. r \<in> set rows \<Longrightarrow> eval_where clauses r = Inr (p r)"
  shows "sql_where clauses rows = Inr (filter p rows)"
  using assms by (induction rows) simp_all

lemma eval_where_all:
  assumes "eval_where clauses r = Inr True" and "c \<in> set clauses"
  shows "c r = Inr True"
  using assms by (induction clauses) (auto split: sum.splits if_splits)

lemma sql_where_matching:
  assumes "sql_where clauses rows = Inr matching" and "r \<in> set matching"
  shows "eval_where clauses r = Inr True"
  using assms
proof (induction rows arbitrary: matching)
  case Nil
  then show ?case by simp
next
  case (Cons a rows)
  then show ?case
    by (auto split: sum.splits if_splits)
qed

lemma q_filter_without_wildcards:
  assumes "q \<noteq> []" and "CHR ''%'' \<notin> set q" and "CHR ''_'' \<notin> set q"
    and "CHR 0x00 \<notin> set q" and "length q + 2 \<le> 50000"
    and "\<And>r t. r \<in> set rows \<Longrightarrow> r_text r = Some t \<Longrightarrow> CHR 0x00 \<notin> set t"
    and "f_q f = Some q" and "f_from f = None" and "f_since f = None"
  shows "sql_where (where_clauses f) rows
           = Inr (filter (\<lambda>r. spec_q_matches (r_text r) q) rows)"
proof (rule sql_where_total)
  fix r
  assume r: "r \<in> set rows"
  have clauses: "where_clauses f =
      [\<lambda>r. like_function (''%'' @ sql_lower q @ ''%'') (map_option sql_lower (r_text r))]"
    using assms(1,7,8,9) by (simp add: where_clauses_def)
  have pattern: "c_string (''%'' @ sql_lower q @ ''%'') = ''%'' @ sql_lower q @ ''%''"
    by (rule c_string_id) (simp add: sql_lower_nul_free [OF assms(4)])
  have short: "\<not> 50000 < length (''%'' @ sql_lower q @ ''%'')"
    using assms(5) by (simp add: length_sql_lower)
  have "like_function (''%'' @ sql_lower q @ ''%'') (map_option sql_lower (r_text r))
          = Inr (spec_q_matches (r_text r) q)"
  proof (cases "r_text r")
    case None
    then show ?thesis
      using short by (simp add: like_function_def spec_q_matches_def)
  next
    case (Some t)
    have "CHR 0x00 \<notin> set t"
      by (rule assms(6) [OF r Some])
    then have "c_string (sql_lower t) = sql_lower t"
      by (simp add: c_string_id sql_lower_nul_free)
    then show ?thesis
      using short Some q_clause_without_wildcards [OF assms(2,3), of t]
      by (simp add: like_function_def spec_q_matches_def pattern del: append.simps)
  qed
  then show "eval_where (where_clauses f) r = Inr (spec_q_matches (r_text r) q)"
    unfolding clauses eval_where_single by simp
qed

lemma null_text_never_matches:
  assumes "q \<noteq> []" and "f_q f = Some q" and "r_text r = None"
    and "sql_where (where_clauses f) rows = Inr matching"
  shows "r \<notin> set matching"
proof
  assume "r \<in> set matching"
  then have "eval_where (where_clauses f) r = Inr True"
    by (rule sql_where_matching [OF assms(4)])
  moreover have "(\<lambda>r. like_function (''%'' @ sql_lower q @ ''%'')
                         (map_option sql_lower (r_text r))) \<in> set (where_clauses f)"
    using assms(1,2) by (simp add: where_clauses_def)
  ultimately have "like_function (''%'' @ sql_lower q @ ''%'')
                     (map_option sql_lower (r_text r)) = Inr True"
    by (rule eval_where_all)
  then show False
    using assms(3) by (simp add: like_function_def split: if_splits)
qed

text \<open>
  Claim C6, as the code behaves. The parameter \<open>q\<close> is pasted into a \<open>LIKE\<close> pattern,
  where \<open>_\<close> and \<open>%\<close> are wildcards: the query \<open>h_llo\<close> returns the message with text
  \<open>hello\<close>, which does not contain \<open>h_llo\<close>.
\<close>

theorem q_wildcard_matches_without_substring:
  "snd (listMessages
          (Some \<lparr>db_rows =
                   [\<lparr>r_message_id = ''m1'', r_from_msisdn = ''+100'',
                     r_to_msisdn = ''+200'', r_ts = ''2025-01-15T10:00:00Z'',
                     r_text = Some ''hello'', r_created_at = ''2025-01-15T10:00:01Z''\<rparr>],
                 db_fault = None\<rparr>)
          \<lparr>f_limit = Finite 50, f_offset = Finite 0, f_from = None, f_since = None,
           f_q = Some ''h_llo''\<rparr>)
     = Inr ([\<lparr>s_message_id = ''m1'', s_from = ''+100'', s_to = ''+200'',
              s_ts = ''2025-01-15T10:00:00Z'', s_text = Some ''hello'',
              s_created_at = ''2025-01-15T10:00:01Z''\<rparr>], 1)
   \<and> \<not> spec_q_matches (Some ''hello'') ''h_llo''"
proof (intro conjI)
  show "\<not> spec_q_matches (Some ''hello'') ''h_llo''"
    by (simp add: spec_q_matches_def sql_lower_def ascii_lower_def starts_with_def)
qed (simp add: listMessages_def getDb_def sql_select_def sql_count_def sql_integer_def
      where_clauses_def like_function_def c_string_def sql_lower_def ascii_lower_def
      sql_limit_def sql_offset_def order_by_def stored_of_row_def)

section \<open>Query validation and internal failures\<close>

lemma limit_check:
  "(v = NaN \<or> js_less v (Finite 1) \<or> js_less (Finite 100) v)
     = (\<not> (\<exists>x. v = Finite x \<and> 1 \<le> x \<and> x \<le> 100))"
  by (cases v) auto

lemma offset_check:
  "(v = NaN \<or> js_less v (Finite 0)) = (\<not> (v = PosInf \<or> (\<exists>y. v = Finite y \<and> 0 \<le> y)))"
  by (cases v) auto

lemma messages_handler_response:
  "fst (messages_handler rt config env sp st) = fst (messages_try rt sp st)"
  by (simp add: messages_handler_def split: prod.splits)

lemma messages_try_422:
  "(fst (messages_try rt sp st) = \<lparr>res_status = 422, res_body = Detail d\<rparr>)
     = (parseMessagesQuery rt sp = Inl \<lparr>res_status = 422, res_body = Detail d\<rparr>)"
  by (auto simp: messages_try_def split: sum.splits prod.splits)

lemma parseMessagesQuery_limit_error:
  "(parseMessagesQuery rt sp =
      Inl \<lparr>res_status = 422, res_body = Detail ''limit must be 1-100 and offset must be >=0''\<rparr>)
   = (let limitNum = (case map_of sp ''limit'' of None \<Rightarrow> Finite 50
                      | Some l \<Rightarrow> if l \<noteq> [] then js_Number rt l else Finite 50);
          offsetNum = (case map_of sp ''offset'' of None \<Rightarrow> Finite 0
                       | Some k \<Rightarrow> if k \<noteq> [] then js_Number rt k else Finite 0)
      in limitNum = NaN \<or> js_less limitNum (Finite 1) \<or> js_less (Finite 100) limitNum
         \<or> offsetNum = NaN \<or> js_less offsetNum (Finite 0))"
  by (simp add: parseMessagesQuery_def Let_def)

text \<open>
  The validation of \<open>limit\<close> and \<open>offset\<close> in general. With \<open>limit\<close> read as 50 and
  \<open>offset\<close> as 0 when omitted or empty, each for itself, and as \<open>Number\<close> of the text
  otherwise, \<open>GET /messages\<close> answers 422 with detail
  \<open>limit must be 1-100 and offset must be >=0\<close> exactly when the limit is not a finite
  number between 1 and 100 or the offset is neither a finite number from 0 up nor
  Infinity; an accepted query carries these two numbers.
\<close>

lemma limit_offset_validation:
  "(fst (messages_handler rt config env sp st) =
      \<lparr>res_status = 422, res_body = Detail ''limit must be 1-100 and offset must be >=0''\<rparr>)
    = (\<not> (\<exists>x. (case map_of sp ''limit'' of None \<Rightarrow> Finite 50
                  | Some l \<Rightarrow> if l \<noteq> [] then js_Number rt l else Finite 50) = Finite x
                \<and> 1 \<le> x \<and> x \<le> 100)
       \<or> \<not> ((case map_of sp ''offset'' of None \<Rightarrow> Finite 0
                | Some k \<Rightarrow> if k \<noteq> [] then js_Number rt k else Finite 0) = PosInf
              \<or> (\<exists>y. (case map_of sp ''offset'' of None \<Rightarrow> Finite 0
                        | Some k \<Rightarrow> if k \<noteq> [] then js_Number rt k else Finite 0) = Finite y
                      \<and> 0 \<le> y)))"
proof -
  let ?bad = "\<lparr>res_status = 422,
               res_body = Detail ''limit must be 1-100 and offset must be >=0''\<rparr>"
  have resp: "(fst (messages_handler rt config env sp st) = ?bad)
                = (parseMessagesQuery rt sp = Inl ?bad)"
    by (simp only: messages_handler_response messages_try_422)
  show ?thesis
    unfolding resp parseMessagesQuery_limit_error Let_def
    by (simp only: limit_check [symmetric] offset_check [symmetric] disj_assoc)
qed

lemma accepted_limit_offset:
  assumes "parseMessagesQuery rt sp = Inr f"
  shows "f_limit f = (case map_of sp ''limit'' of None \<Rightarrow> Finite 50
                      | Some l \<Rightarrow> if l \<noteq> [] then js_Number rt l else Finite 50)"
    and "f_offset f = (case map_of sp ''offset'' of None \<Rightarrow> Finite 0
                       | Some k \<Rightarrow> if k \<noteq> [] then js_Number rt k else Finite 0)"
  using assms by (auto simp: parseMessagesQuery_def Let_def split: if_splits)

text \<open>
  Claim C5, as the code behaves. The validation compares the numbers and never tests
  that they are integers: the query \<open>limit=1.5\<close> passes \<open>parseMessagesQuery\<close> with the
  limit \<open>1.5\<close>, which is not an integer in \<open>[1,100]\<close>, and the request is not answered
  422; the storage engine then refuses the fractional \<open>LIMIT\<close> and the answer is 500 with
  detail \<open>datatype mismatch\<close>.
\<close>

theorem fractional_limit_not_rejected:
  "parseMessagesQuery
     \<lparr>js_Number = decimal_Number, js_JSON_parse = (\<lambda>s. None),
      js_hmac_sha256_hex = (\<lambda>key body. []), js_add = (+),
      js_number_text = (\<lambda>x. [])\<rparr>
     [(''limit'', ''1.5'')]
     = Inr \<lparr>f_limit = Finite (3 / 2), f_offset = Finite 0, f_from = None, f_since = None,
            f_q = None\<rparr>
   \<and> \<not> spec_limit_valid (Finite (3 / 2))
   \<and> fst (messages_handler
          \<lparr>js_Number = decimal_Number, js_JSON_parse = (\<lambda>s. None),
           js_hmac_sha256_hex = (\<lambda>key body. []), js_add = (+),
           js_number_text = (\<lambda>x. [])\<rparr>
          \<lparr>databaseUrl = ''sqlite:./data/app.db'', webhookSecret = Some ''s'', logLevel = INFO\<rparr>
          \<lparr>e_request_id = ''r1'', e_latency = 3, e_now = ''2025-01-15T10:00:01Z''\<rparr>
          [(''limit'', ''1.5'')]
          \<lparr>st_db = Some \<lparr>db_rows =
                           [\<lparr>r_message_id = ''m1'', r_from_msisdn = ''+100'',
                             r_to_msisdn = ''+200'', r_ts = ''2025-01-15T10:00:00Z'',
                             r_text = Some ''hello'',
                             r_created_at = ''2025-01-15T10:00:01Z''\<rparr>],
                         db_fault = None\<rparr>,
           st_metrics = initial_metrics\<rparr>) =
     \<lparr>res_status = 500, res_body = Detail ''datatype mismatch''\<rparr>"
  by code_simp

text \<open>
  Claim C8, counterexample. \<open>GET /messages?limit=1.5\<close> makes the storage engine raise
  \<open>datatype mismatch\<close>, and the 500 response carries that message as its detail.
\<close>

theorem storage_error_reaches_client:
  "snd (listMessages (Some \<lparr>db_rows = [], db_fault = None\<rparr>)
          \<lparr>f_limit = Finite (3 / 2), f_offset = Finite 0, f_from = None, f_since = None,
           f_q = None\<rparr>) = Inl (Error ''datatype mismatch'')
   \<and> fst (messages_handler
          \<lparr>js_Number = decimal_Number, js_JSON_parse = (\<lambda>s. None),
           js_hmac_sha256_hex = (\<lambda>key body. []), js_add = (+),
           js_number_text = (\<lambda>x. [])\<rparr>
          \<lparr>databaseUrl = ''sqlite:./data/app.db'', webhookSecret = Some ''s'', logLevel = INFO\<rparr>
          \<lparr>e_request_id = ''r1'', e_latency = 3, e_now = ''2025-01-15T10:00:01Z''\<rparr>
          [(''limit'', ''1.5'')]
          \<lparr>st_db = Some \<lparr>db_rows = [], db_fault = None\<rparr>, st_metrics = initial_metrics\<rparr>) =
     \<lparr>res_status = 500, res_body = Detail ''datatype mismatch''\<rparr>"
  by code_simp

lemma webhook_handler_response:
  "fst (webhook_handler rt config env req st) = fst (webhook_try rt config env req st)"
  by (simp add: webhook_handler_def split: prod.splits)

lemma messages_handler_console:
  "snd (snd (messages_handler rt config env sp st)) =
     snd (messages_try rt sp st)
     @ logRequest (logLevel config)
         \<lparr>lg_request_id = e_request_id env, lg_method = ''GET'', lg_path = ''/messages'',
          lg_status = res_status (fst (messages_try rt sp st)),
          lg_latency_ms = \<lfloor>e_latency env + 1 / 2\<rfloor>,
          lg_message_id = None, lg_dup = None, lg_result = None\<rparr>"
  by (simp add: messages_handler_def split: prod.splits)

text \<open>
  Claim C8, amended. When \<open>insertMessage\<close> fails in \<open>POST /webhook\<close>, or
  \<open>listMessages\<close> fails in \<open>GET /messages\<close>, the handler answers 500 and the detail of
  the body is the message of the error itself, the fixed text \<open>unknown error\<close> being
  used only for a thrown value that is not an \<open>Error\<close>; \<open>GET /messages\<close> also writes
  the error to the console.
\<close>

theorem internal_failure_response:
  "(truthy (webhookSecret config)
      \<and> isValidSignature rt (w_signature req) (webhookSecret config) (w_body req)
      \<and> js_JSON_parse rt (w_body req) = Some j
      \<and> webhookMessageSchema_safeParse j = Inr msg
      \<and> insertMessage (st_db st) (e_now env) msg = Inl err
    \<longrightarrow> fst (webhook_handler rt config env req st) =
          \<lparr>res_status = 500, res_body = Detail (error_detail err)\<rparr>)
   \<and> (parseMessagesQuery rt sp = Inr f \<and> snd (listMessages (st_db st) f) = Inl err
    \<longrightarrow> fst (messages_handler rt config env sp st) =
          \<lparr>res_status = 500, res_body = Detail (error_detail err)\<rparr>
        \<and> Console_error ''/messages handler error'' err
            \<in> set (snd (snd (messages_handler rt config env sp st))))
   \<and> error_detail (Error message) = message
   \<and> error_detail NonError = ''unknown error''"
proof (intro conjI impI)
  assume "truthy (webhookSecret config)
      \<and> isValidSignature rt (w_signature req) (webhookSecret config) (w_body req)
      \<and> js_JSON_parse rt (w_body req) = Some j
      \<and> webhookMessageSchema_safeParse j = Inr msg
      \<and> insertMessage (st_db st) (e_now env) msg = Inl err"
  then show "fst (webhook_handler rt config env req st) =
          \<lparr>res_status = 500, res_body = Detail (error_detail err)\<rparr>"
    by (simp add: webhook_handler_response webhook_try_def)
next
  assume a: "parseMessagesQuery rt sp = Inr f \<and> snd (listMessages (st_db st) f) = Inl err"
  then have tried: "messages_try rt sp st =
      (\<lparr>res_status = 500, res_body = Detail (error_detail err)\<rparr>,
       fst (listMessages (st_db st) f) @ [Console_error ''/messages handler error'' err])"
    by (cases "listMessages (st_db st) f") (simp add: messages_try_def)
  show "fst (messages_handler rt config env sp st) =
          \<lparr>res_status = 500, res_body = Detail (error_detail err)\<rparr>"
    by (simp add: messages_handler_response tried)
  show "Console_error ''/messages handler error'' err
            \<in> set (snd (snd (messages_handler rt config env sp st)))"
    by (simp add: messages_handler_console tried)
qed (simp_all add: error_detail_def)

text \<open>The theorem at a signed valid message on a store whose engine fails with
  \<open>disk I/O error\<close>, and at the listing \<open>limit=2.5\<close> on a working store.\<close>

theorem internal_failure_response_witness:
  \<open>fst (webhook_handler
          \<lparr>js_Number = decimal_Number,
           js_JSON_parse = (\<lambda>s.
              if s = ''{"message_id":"m1","from":"+100","to":"+200","ts":"2025-01-15T10:00:00Z"}''
              then Some (JObject
                [(''message_id'', JString ''m1''), (''from'', JString ''+100''),
                 (''to'', JString ''+200''), (''ts'', JString ''2025-01-15T10:00:00Z'')])
              else None),
           js_hmac_sha256_hex = (\<lambda>key body. ''9f3a''), js_add = (+),
           js_number_text = (\<lambda>x. [])\<rparr>
          \<lparr>databaseUrl = ''sqlite:./data/app.db'', webhookSecret = Some ''s'', logLevel = INFO\<rparr>
          \<lparr>e_request_id = ''r1'', e_latency = 3, e_now = ''2025-01-15T10:00:01Z''\<rparr>
          \<lparr>w_signature = Some ''9f3a'',
           w_body = ''{"message_id":"m1","from":"+100","to":"+200","ts":"2025-01-15T10:00:00Z"}''\<rparr>
          \<lparr>st_db = Some \<lparr>db_rows = [], db_fault = Some ''disk I/O error''\<rparr>,
           st_metrics = initial_metrics\<rparr>) =
     \<lparr>res_status = 500, res_body = Detail ''disk I/O error''\<rparr>
   \<and> fst (messages_handler
          \<lparr>js_Number = decimal_Number,
           js_JSON_parse = (\<lambda>s.
              if s = ''{"message_id":"m1","from":"+100","to":"+200","ts":"2025-01-15T10:00:00Z"}''
              then Some (JObject
                [(''message_id'', JString ''m1''), (''from'', JString ''+100''),
                 (''to'', JString ''+200''), (''ts'', JString ''2025-01-15T10:00:00Z'')])
              else None),
           js_hmac_sha256_hex = (\<lambda>key body. ''9f3a''), js_add = (+),
           js_number_text = (\<lambda>x. [])\<rparr>
          \<lparr>databaseUrl = ''sqlite:./data/app.db'', webhookSecret = Some ''s'', logLevel = INFO\<rparr>
          \<lparr>e_request_id = ''r1'', e_latency = 3, e_now = ''2025-01-15T10:00:01Z''\<rparr>
          [(''limit'', ''2.5'')]
          \<lparr>st_db = Some \<lparr>db_rows = [], db_fault = None\<rparr>, st_metrics = initial_metrics\<rparr>) =
     \<lparr>res_status = 500, res_body = Detail ''datatype mismatch''\<rparr>\<close>
proof -
  let ?j = "JObject
              [(''message_id'', JString ''m1''), (''from'', JString ''+100''),
               (''to'', JString ''+200''), (''ts'', JString ''2025-01-15T10:00:00Z'')]"
  let ?text = \<open>''{"message_id":"m1","from":"+100","to":"+200","ts":"2025-01-15T10:00:00Z"}''\<close>
  let ?rt = "\<lparr>js_Number = decimal_Number,
              js_JSON_parse = (\<lambda>s. if s = ?text then Some ?j else None),
              js_hmac_sha256_hex = (\<lambda>key body. ''9f3a''), js_add = (+),
              js_number_text = (\<lambda>x. [])\<rparr>"
  let ?config = "\<lparr>databaseUrl = ''sqlite:./data/app.db'', webhookSecret = Some ''s'',
                  logLevel = INFO\<rparr>"
  let ?env = "\<lparr>e_request_id = ''r1'', e_latency = 3, e_now = ''2025-01-15T10:00:01Z''\<rparr>"
  let ?req = "\<lparr>w_signature = Some ''9f3a'', w_body = ?text\<rparr>"
  let ?failing = "\<lparr>st_db = Some \<lparr>db_rows = [], db_fault = Some ''disk I/O error''\<rparr>,
                   st_metrics = initial_metrics\<rparr>"
  let ?st = "\<lparr>st_db = Some \<lparr>db_rows = [], db_fault = None\<rparr>,
              st_metrics = initial_metrics\<rparr>"
  let ?msg = "\<lparr>m_message_id = ''m1'', m_from = ''+100'', m_to = ''+200'',
               m_ts = ''2025-01-15T10:00:00Z'', m_text = None\<rparr>"
  let ?f = "\<lparr>f_limit = Finite (5 / 2), f_offset = Finite 0, f_from = None, f_since = None,
             f_q = None\<rparr>"
  have h1: "truthy (webhookSecret ?config)"
    by (simp add: truthy_def)
  have h2: "isValidSignature ?rt (w_signature ?req) (webhookSecret ?config) (w_body ?req)"
    by (simp add: isValidSignature_def truthy_def computeHmac_def timingSafeEqualHex_iff)
  have h3: "js_JSON_parse ?rt (w_body ?req) = Some ?j"
    by simp
  have h4: "webhookMessageSchema_safeParse ?j = Inr ?msg"
    by code_simp
  have h5: "insertMessage (st_db ?failing) (e_now ?env) ?msg = Inl (Error ''disk I/O error'')"
    by (simp add: insertMessage_def getDb_def sql_insert_def starts_with_def)
  have h6: "parseMessagesQuery ?rt [(''limit'', ''2.5'')] = Inr ?f"
    by code_simp
  have h7: "snd (listMessages (st_db ?st) ?f) = Inl (Error ''datatype mismatch'')"
    by code_simp
  note post = internal_failure_response
    [where config = ?config and rt = ?rt and req = ?req and j = ?j and msg = ?msg
       and st = ?failing and env = ?env and err = "Error ''disk I/O error''"]
  note get = internal_failure_response
    [where rt = ?rt and config = ?config and env = ?env and st = ?st
       and err = "Error ''datatype mismatch''" and sp = "[(''limit'', ''2.5'')]" and f = ?f]
  have "fst (webhook_handler ?rt ?config ?env ?req ?failing) =
          \<lparr>res_status = 500, res_body = Detail (error_detail (Error ''disk I/O error''))\<rparr>"
    using post h1 h2 h3 h4 h5 by blast
  moreover have "fst (messages_handler ?rt ?config ?env [(''limit'', ''2.5'')] ?st) =
          \<lparr>res_status = 500, res_body = Detail (error_detail (Error ''datatype mismatch''))\<rparr>"
    using get h6 h7 by blast
  ultimately show ?thesis
    by (simp add: error_detail_def)
qed

end
